theory Spec2Isabelle
  imports Main
begin

section \<open>The World coordinator of src/world.ts\<close>

text \<open>
  A shallow embedding of the class \<open>World\<close> (src/world.ts). The instance fields become
  one record of state, every method and every event handler becomes a function from the
  state to the new state (with what it returns or throws), and the promises, arrays and
  objects the methods share with their callers live in explicit stores, so that aliasing
  is visible.

  Conventions.
  \<^item> Names, addresses and messages are ASCII strings. \<open>String.toLocaleUpperCase\<close> maps the
    letters a..z to A..Z and leaves every other ASCII character alone.
  \<^item> The counter \<open>joins\<close> is a JavaScript number; it is modelled as a natural number
    (a double counts exactly up to \<open>2 ^ 53\<close>).
  \<^item> A promise is settled by the environment (the remote API) in one step, together with
    the reactions registered on it: they run as microtasks before any other task.
  \<^item> Subscribers of the published events and registered command handlers are external:
    the model records what is published and which handler is invoked with which arguments.
\<close>

subsection \<open>Strings\<close>

definition upper_table :: "(char \<times> char) list" where
  "upper_table = zip ''abcdefghijklmnopqrstuvwxyz'' ''ABCDEFGHIJKLMNOPQRSTUVWXYZ''"

definition upper_char :: "char \<Rightarrow> char" where
  "upper_char c = (case map_of upper_table c of Some u \<Rightarrow> u | None \<Rightarrow> c)"

text \<open>\<open>name.toLocaleUpperCase()\<close>, on ASCII.\<close>

definition toLocaleUpperCase :: "string \<Rightarrow> string" where
  "toLocaleUpperCase s = map upper_char s"

text \<open>
  Two characters are the same letter when they are equal or one is the capital of the
  other; two names are equal up to letter case when they are so position by position.
  This relation is stated without \<open>toLocaleUpperCase\<close>.
\<close>

definition same_letter :: "char \<Rightarrow> char \<Rightarrow> bool" where
  "same_letter c d = (c = d \<or> (c, d) \<in> set upper_table \<or> (d, c) \<in> set upper_table)"

definition eq_up_to_case :: "string \<Rightarrow> string \<Rightarrow> bool" where
  "eq_up_to_case a b = list_all2 same_letter a b"

subsection \<open>Data\<close>

type_synonym addr = nat

text \<open>What a synchronous call throws, and what a promise is rejected with.\<close>

datatype error = Error string | TypeError

datatype 'a promise = Pending | Fulfilled 'a | Rejected error

text \<open>
  \<open>PlayerInfo\<close>, the record kept per player in \<open>_players\<close>. The optional field
  \<open>owner?: boolean\<close> is \<open>None\<close> while it is absent.
\<close>

record PlayerInfo =
  ip :: string
  ips :: "string list"
  joins :: nat
  owner :: "bool option"

text \<open>
  \<open>WorldOverview\<close> and \<open>WorldLists\<close> objects (interfaces of blockheads-api): the fields
  this class reads. A field of type \<open>string[]\<close> holds the address of an array.
\<close>

record WorldOverview =
  overview_owner :: string
  overview_online :: addr

record WorldLists =
  adminlist :: addr
  modlist :: addr
  whitelist :: addr
  blacklist :: addr

text \<open>\<open>Partial<WorldLists>\<close>: a list that is not provided is \<open>None\<close>.\<close>

record PartialLists =
  new_adminlist :: "addr option"
  new_modlist :: "addr option"
  new_whitelist :: "addr option"
  new_blacklist :: "addr option"

text \<open>
  \<open>new Player(name, info, lists)\<close>: the constructor's three arguments. The class Player
  (src/player.ts) is not among the sources.
\<close>

record Player =
  player_name :: string
  player_info :: PlayerInfo
  player_lists :: addr

text \<open>
  Modelled from the spec: the getter \<open>isOwner\<close> of the missing class Player. The spec's
  PlayerView is a projection of the PlayerRecord, whose \<open>isOwner\<close> is the record's owner
  flag.
\<close>

definition isOwner :: "Player \<Rightarrow> bool" where
  "isOwner p = (owner (player_info p) = Some True)"

datatype event = JoinEvent Player | LeaveEvent Player | MessageEvent Player string

text \<open>
  The state of a World. \<open>arrays\<close>, \<open>overviews\<close> and \<open>listobjs\<close> are the stores of the
  \<open>string[]\<close> arrays, the WorldOverview objects and the WorldLists objects; an address is
  an index into its store. \<open>api_overview\<close> and \<open>api_lists\<close> hold one promise per call of
  \<open>_api.getOverview()\<close> and \<open>_api.getLists()\<close>, in call order, each standing also for the
  promise \<open>.then\<close> derives from it and the cache memoizes; \<open>api_setLists\<close> holds the object
  submitted by each call of \<open>_api.setLists\<close> and the promise of that call.
  \<open>cache_overview\<close> and \<open>cache_lists\<close> are \<open>_cache.overview\<close> and \<open>_cache.lists\<close>,
  \<open>online_arr\<close> is \<open>_online\<close>, \<open>lists_obj\<close> is \<open>_lists\<close>, \<open>players\<close> is \<open>_players\<close> and
  \<open>commands\<close> is \<open>_commands\<close>. \<open>events\<close> are the events dispatched to the subscribers
  and \<open>calls\<close> the handler invocations, oldest first. The ChatWatcher, which is not
  among the sources, is given the array \<open>_online\<close> and writes to it; its events reach
  the World through the three handlers below.
\<close>

record 'h World =
  arrays :: "string list list"
  overviews :: "WorldOverview list"
  listobjs :: "WorldLists list"
  api_overview :: "addr promise list"
  api_lists :: "addr promise list"
  api_setLists :: "(addr \<times> unit promise) list"
  cache_overview :: "nat option"
  cache_lists :: "nat option"
  online_arr :: addr
  lists_obj :: addr
  players :: "string \<rightharpoonup> PlayerInfo"
  commands :: "string \<rightharpoonup> 'h"
  events :: "event list"
  calls :: "('h \<times> Player \<times> string) list"

subsection \<open>Players\<close>

text \<open>\<open>getPlayer\<close> (lines 170-173).\<close>

definition getPlayer :: "string \<Rightarrow> 'h World \<Rightarrow> Player" where
  "getPlayer nm w =
     (let nm = toLocaleUpperCase nm in
      \<lparr>player_name = nm,
       player_info = (case players w nm of
                        Some i \<Rightarrow> i
                      | None \<Rightarrow> \<lparr>ip = [], ips = [], joins = 0, owner = None\<rparr>),
       player_lists = lists_obj w\<rparr>)"

text \<open>The handler subscribed to \<open>watcher.onJoin\<close> (lines 37-44).\<close>

definition onJoin :: "string \<Rightarrow> string \<Rightarrow> 'h World \<Rightarrow> 'h World" where
  "onJoin nm address w =
     (let nm = toLocaleUpperCase nm;
          player = (case players w nm of
                      Some i \<Rightarrow> i
                    | None \<Rightarrow> \<lparr>ip = address, ips = [address], joins = 0, owner = None\<rparr>);
          player = player\<lparr>joins := joins player + 1\<rparr>;
          player = player\<lparr>ip := address\<rparr>;
          player = (if address \<in> set (ips player) then player
                    else player\<lparr>ips := ips player @ [address]\<rparr>);
          w = w\<lparr>players := (players w)(nm \<mapsto> player)\<rparr>
      in w\<lparr>events := events w @ [JoinEvent (getPlayer nm w)]\<rparr>)"

text \<open>A sequence of join events \<open>(name, ip)\<close>, handled in arrival order.\<close>

fun onJoins :: "(string \<times> string) list \<Rightarrow> 'h World \<Rightarrow> 'h World" where
  "onJoins [] w = w"
| "onJoins (e # es) w = onJoins es (onJoin (fst e) (snd e) w)"

text \<open>The handler subscribed to \<open>watcher.onLeave\<close> (line 45).\<close>

definition onLeave :: "string \<Rightarrow> 'h World \<Rightarrow> 'h World" where
  "onLeave nm w = w\<lparr>events := events w @ [LeaveEvent (getPlayer nm w)]\<rparr>"

subsection \<open>Commands\<close>

text \<open>\<open>addCommand\<close> (lines 183-189): what it throws, and the state after the call.\<close>

definition addCommand :: "string \<Rightarrow> 'h \<Rightarrow> 'h World \<Rightarrow> error option \<times> 'h World" where
  "addCommand command listener w =
     (let command = toLocaleUpperCase command in
      if command \<in> dom (commands w)
      then (Some (Error (''The command '' @ [CHR 0x22] @ command @ [CHR 0x22] @
                         '' has already been added.'')), w)
      else (None, w\<lparr>commands := (commands w)(command \<mapsto> listener)\<rparr>))"

text \<open>\<open>removeCommand\<close> (lines 196-198).\<close>

definition removeCommand :: "string \<Rightarrow> 'h World \<Rightarrow> 'h World" where
  "removeCommand command w = w\<lparr>commands := (commands w)(toLocaleUpperCase command := None)\<rparr>"

text \<open>
  The test \<open>/^\/[^ ]/.test(message)\<close>: a slash, then a character that is not a space.
\<close>

definition test_command :: "string \<Rightarrow> bool" where
  "test_command message =
     (case message of
        c # d # _ \<Rightarrow> c = CHR ''/'' \<and> d \<noteq> CHR '' ''
      | _ \<Rightarrow> False)"

text \<open>The characters the dot of a regular expression does not match (on ASCII).\<close>

definition line_terminator :: "char \<Rightarrow> bool" where
  "line_terminator c = (c = CHR 0x0A \<or> c = CHR 0x0D)"

text \<open>
  \<open>message.match(/^\/([^ ]+) ?(.*)$/)\<close>: the two groups, or \<open>None\<close> for \<open>null\<close>.
  The first group is greedy, so it takes every character up to the first space (it may
  hold line terminators); one space is skipped when there is one; the second group is
  the rest, which the dot must match up to the end of the input, so the rest holds no
  line terminator. No shorter first group helps: what it gives back is still followed
  by the same rest.
\<close>

definition match_command :: "string \<Rightarrow> (string \<times> string) option" where
  "match_command message =
     (case message of
        [] \<Rightarrow> None
      | c # rest \<Rightarrow>
          if c = CHR ''/'' then
            (let command = takeWhile (\<lambda>x. x \<noteq> CHR '' '') rest;
                 args = drop 1 (dropWhile (\<lambda>x. x \<noteq> CHR '' '') rest)
             in if command = [] \<or> list_ex line_terminator args then None
                else Some (command, args))
          else None)"

text \<open>
  The handler subscribed to \<open>watcher.onMessage\<close> (lines 46-53). Destructuring the
  \<open>null\<close> of a failed match throws a TypeError, after the event has been dispatched.
\<close>

definition onMessage :: "string \<Rightarrow> string \<Rightarrow> 'h World \<Rightarrow> error option \<times> 'h World" where
  "onMessage nm message w =
     (let w = w\<lparr>events := events w @ [MessageEvent (getPlayer nm w) message]\<rparr> in
      if test_command message then
        (case match_command message of
           None \<Rightarrow> (Some TypeError, w)
         | Some (command, args) \<Rightarrow>
             (case commands w (toLocaleUpperCase command) of
                Some handler \<Rightarrow> (None, w\<lparr>calls := calls w @ [(handler, getPlayer nm w, args)]\<rparr>)
              | None \<Rightarrow> (None, w)))
      else (None, w))"

subsection \<open>Promises and stores\<close>

text \<open>The state of the promise behind a handle; a handle of no promise never settles.\<close>

definition promise_at :: "'a promise list \<Rightarrow> nat \<Rightarrow> 'a promise" where
  "promise_at ps p = (if p < length ps then ps ! p else Pending)"

text \<open>A promise settles once: settling a settled promise changes nothing.\<close>

definition settle :: "'a promise list \<Rightarrow> nat \<Rightarrow> 'a promise \<Rightarrow> 'a promise list" where
  "settle ps p v = (if promise_at ps p = Pending then ps[p := v] else ps)"

text \<open>
  What the environment does to the stores: the remote API builds the object it answers
  with, and a caller writes to an array it holds (\<open>push\<close>, an assignment to an index or
  to \<open>length\<close>, \<open>splice\<close>: the array at that address has new contents).
\<close>

definition make_array :: "string list \<Rightarrow> 'h World \<Rightarrow> addr \<times> 'h World" where
  "make_array xs w = (length (arrays w), w\<lparr>arrays := arrays w @ [xs]\<rparr>)"

definition make_overview :: "string \<Rightarrow> string list \<Rightarrow> 'h World \<Rightarrow> addr \<times> 'h World" where
  "make_overview own names w =
     (length (overviews w),
      w\<lparr>arrays := arrays w @ [names],
        overviews := overviews w @
          [\<lparr>overview_owner = own, overview_online = length (arrays w)\<rparr>]\<rparr>)"

definition make_lists ::
  "string list \<Rightarrow> string list \<Rightarrow> string list \<Rightarrow> string list \<Rightarrow> 'h World \<Rightarrow> addr \<times> 'h World" where
  "make_lists a m wl b w =
     (length (listobjs w),
      w\<lparr>arrays := arrays w @ [a, m, wl, b],
        listobjs := listobjs w @
          [\<lparr>adminlist = length (arrays w), modlist = length (arrays w) + 1,
            whitelist = length (arrays w) + 2, blacklist = length (arrays w) + 3\<rparr>]\<rparr>)"

definition array_write :: "addr \<Rightarrow> string list \<Rightarrow> 'h World \<Rightarrow> 'h World" where
  "array_write a xs w = w\<lparr>arrays := (arrays w)[a := xs]\<rparr>"

text \<open>The contents of an overview object and of a lists object, arrays read through.\<close>

definition overview_value :: "'h World \<Rightarrow> addr \<Rightarrow> string \<times> string list" where
  "overview_value w ov =
     (overview_owner (overviews w ! ov), arrays w ! overview_online (overviews w ! ov))"

definition lists_value ::
  "'h World \<Rightarrow> addr \<Rightarrow> string list \<times> string list \<times> string list \<times> string list" where
  "lists_value w l =
     (arrays w ! adminlist (listobjs w ! l), arrays w ! modlist (listobjs w ! l),
      arrays w ! whitelist (listobjs w ! l), arrays w ! blacklist (listobjs w ! l))"

text \<open>The object at an address and its four arrays exist.\<close>

definition lists_valid :: "'h World \<Rightarrow> addr \<Rightarrow> bool" where
  "lists_valid w l =
     (l < length (listobjs w) \<and>
      adminlist (listobjs w ! l) < length (arrays w) \<and>
      modlist (listobjs w ! l) < length (arrays w) \<and>
      whitelist (listobjs w ! l) < length (arrays w) \<and>
      blacklist (listobjs w ! l) < length (arrays w))"

subsection \<open>The online players\<close>

text \<open>The getter \<open>online\<close> (lines 92-94): \<open>[...this._online]\<close> is a new array.\<close>

definition online :: "'h World \<Rightarrow> addr \<times> 'h World" where
  "online w = (length (arrays w), w\<lparr>arrays := arrays w @ [arrays w ! online_arr w]\<rparr>)"

subsection \<open>The overview\<close>

text \<open>\<open>getOverview\<close> (lines 106-117): the handle of the memoized promise the caller's
  promise is derived from, and the state after the call.\<close>

definition fetch_overview :: "'h World \<Rightarrow> nat \<times> 'h World" where
  "fetch_overview w =
     (length (api_overview w),
      w\<lparr>api_overview := api_overview w @ [Pending],
        cache_overview := Some (length (api_overview w))\<rparr>)"

definition getOverview :: "bool \<Rightarrow> 'h World \<Rightarrow> nat \<times> 'h World" where
  "getOverview refresh w =
     (case cache_overview w of
        None \<Rightarrow> fetch_overview w
      | Some p \<Rightarrow> if refresh then fetch_overview w else (p, w))"

text \<open>Calls of \<open>getOverview\<close> one after the other, while nothing settles.\<close>

fun getOverviews :: "bool list \<Rightarrow> 'h World \<Rightarrow> nat list \<times> 'h World" where
  "getOverviews [] w = ([], w)"
| "getOverviews (r # rs) w =
     (case getOverview r w of
        (p, w1) \<Rightarrow> (case getOverviews rs w1 of (ps, w2) \<Rightarrow> (p # ps, w2)))"

text \<open>
  The reaction of lines 108-113, run with the overview object the API answered with.
  \<open>forEach\<close> visits the names the array holds when it starts.
\<close>

definition merge_online :: "string list \<Rightarrow> string list \<Rightarrow> string list" where
  "merge_online current names =
     foldl (\<lambda>acc n. if n \<in> set acc then acc else acc @ [n]) current names"

definition overview_loaded :: "addr \<Rightarrow> 'h World \<Rightarrow> 'h World" where
  "overview_loaded ov w =
     (let overview = overviews w ! ov;
          w = w\<lparr>arrays := (arrays w)[online_arr w :=
                  merge_online (arrays w ! online_arr w) (arrays w ! overview_online overview)]\<rparr>;
          key = overview_owner overview;
          w = w\<lparr>players := (players w)(key \<mapsto>
                  (case players w key of
                     Some i \<Rightarrow> i
                   | None \<Rightarrow> \<lparr>ip = [], ips = [], joins = 0, owner = None\<rparr>))\<rparr>
      in w\<lparr>players := (players w)(key := map_option (\<lambda>i. i\<lparr>owner := Some True\<rparr>) (players w key))\<rparr>)"

text \<open>The promise of the \<open>p\<close>-th call of \<open>_api.getOverview()\<close> is fulfilled, or rejected.\<close>

definition overview_fulfilled :: "nat \<Rightarrow> addr \<Rightarrow> 'h World \<Rightarrow> 'h World" where
  "overview_fulfilled p ov w =
     (if promise_at (api_overview w) p = Pending \<and> p < length (api_overview w)
      then overview_loaded ov (w\<lparr>api_overview := (api_overview w)[p := Fulfilled ov]\<rparr>)
      else w)"

definition overview_rejected :: "nat \<Rightarrow> error \<Rightarrow> 'h World \<Rightarrow> 'h World" where
  "overview_rejected p e w = w\<lparr>api_overview := settle (api_overview w) p (Rejected e)\<rparr>"

text \<open>
  What the promise returned by \<open>getOverview\<close> gives its caller (line 116): nothing
  while the memoized promise is pending, its error, or a new object \<open>{ ...overview }\<close>
  with the fields of the cached one.
\<close>

definition overview_result :: "nat \<Rightarrow> 'h World \<Rightarrow> (error + addr) option \<times> 'h World" where
  "overview_result p w =
     (case promise_at (api_overview w) p of
        Pending \<Rightarrow> (None, w)
      | Rejected e \<Rightarrow> (Some (Inl e), w)
      | Fulfilled ov \<Rightarrow>
          (Some (Inr (length (overviews w))),
           w\<lparr>overviews := overviews w @ [overviews w ! ov]\<rparr>))"

subsection \<open>The lists\<close>

text \<open>\<open>getLists\<close> (lines 122-134).\<close>

definition fetch_lists :: "'h World \<Rightarrow> nat \<times> 'h World" where
  "fetch_lists w =
     (length (api_lists w),
      w\<lparr>api_lists := api_lists w @ [Pending], cache_lists := Some (length (api_lists w))\<rparr>)"

definition getLists :: "bool \<Rightarrow> 'h World \<Rightarrow> nat \<times> 'h World" where
  "getLists refresh w =
     (case cache_lists w of
        None \<Rightarrow> fetch_lists w
      | Some p \<Rightarrow> if refresh then fetch_lists w else (p, w))"

text \<open>The reaction of line 124, \<open>lists => this._lists = lists\<close>, with the settlement.\<close>

definition lists_fulfilled :: "nat \<Rightarrow> addr \<Rightarrow> 'h World \<Rightarrow> 'h World" where
  "lists_fulfilled p l w =
     (if promise_at (api_lists w) p = Pending \<and> p < length (api_lists w)
      then w\<lparr>api_lists := (api_lists w)[p := Fulfilled l], lists_obj := l\<rparr>
      else w)"

definition lists_rejected :: "nat \<Rightarrow> error \<Rightarrow> 'h World \<Rightarrow> 'h World" where
  "lists_rejected p e w = w\<lparr>api_lists := settle (api_lists w) p (Rejected e)\<rparr>"

text \<open>
  What the promise returned by \<open>getLists\<close> gives its caller (lines 128-133): a new
  object whose four fields are new arrays with the contents of the cached ones.
\<close>

definition lists_result :: "nat \<Rightarrow> 'h World \<Rightarrow> (error + addr) option \<times> 'h World" where
  "lists_result p w =
     (case promise_at (api_lists w) p of
        Pending \<Rightarrow> (None, w)
      | Rejected e \<Rightarrow> (Some (Inl e), w)
      | Fulfilled l \<Rightarrow>
          (let cached = listobjs w ! l; n = length (arrays w) in
           (Some (Inr (length (listobjs w))),
            w\<lparr>arrays := arrays w @
                 [arrays w ! adminlist cached, arrays w ! modlist cached,
                  arrays w ! whitelist cached, arrays w ! blacklist cached],
              listobjs := listobjs w @
                 [\<lparr>adminlist = n, modlist = n + 1, whitelist = n + 2, blacklist = n + 3\<rparr>]\<rparr>)))"

text \<open>
  \<open>setLists\<close> (lines 142-146) is an async function: it runs up to its first \<open>await\<close> when
  it is called and goes on when what it awaits has settled. A task is where it stands:
  awaiting \<open>this.getLists()\<close>, awaiting \<open>this._api.setLists(...)\<close>, awaiting
  \<open>this.getLists(true)\<close>, returned, or thrown (its promise is rejected).
\<close>

datatype setLists_task =
  AwaitCurrent PartialLists nat
| AwaitSubmit nat
| AwaitRefresh nat
| Returned
| Thrown error

text \<open>\<open>{...currentLists, ...lists}\<close>: a field of the update wins when it is provided.\<close>

definition merge_lists :: "WorldLists \<Rightarrow> PartialLists \<Rightarrow> WorldLists" where
  "merge_lists currentLists update =
     \<lparr>adminlist = (case new_adminlist update of Some a \<Rightarrow> a | None \<Rightarrow> adminlist currentLists),
      modlist = (case new_modlist update of Some a \<Rightarrow> a | None \<Rightarrow> modlist currentLists),
      whitelist = (case new_whitelist update of Some a \<Rightarrow> a | None \<Rightarrow> whitelist currentLists),
      blacklist = (case new_blacklist update of Some a \<Rightarrow> a | None \<Rightarrow> blacklist currentLists)\<rparr>"

text \<open>The arrays an update provides exist.\<close>

definition partial_valid :: "'h World \<Rightarrow> PartialLists \<Rightarrow> bool" where
  "partial_valid w update =
     ((case new_adminlist update of Some a \<Rightarrow> a < length (arrays w) | None \<Rightarrow> True) \<and>
      (case new_modlist update of Some a \<Rightarrow> a < length (arrays w) | None \<Rightarrow> True) \<and>
      (case new_whitelist update of Some a \<Rightarrow> a < length (arrays w) | None \<Rightarrow> True) \<and>
      (case new_blacklist update of Some a \<Rightarrow> a < length (arrays w) | None \<Rightarrow> True))"

text \<open>
  The lists an update is to leave on the server, by the words of the specification: the
  update over the lists at address \<open>l\<close>, list by list, as contents.
\<close>

definition merged_lists_value ::
  "'h World \<Rightarrow> addr \<Rightarrow> PartialLists \<Rightarrow>
     string list \<times> string list \<times> string list \<times> string list" where
  "merged_lists_value w l update =
     ((case new_adminlist update of
         Some a \<Rightarrow> arrays w ! a | None \<Rightarrow> fst (lists_value w l)),
      (case new_modlist update of
         Some a \<Rightarrow> arrays w ! a | None \<Rightarrow> fst (snd (lists_value w l))),
      (case new_whitelist update of
         Some a \<Rightarrow> arrays w ! a | None \<Rightarrow> fst (snd (snd (lists_value w l)))),
      (case new_blacklist update of
         Some a \<Rightarrow> arrays w ! a | None \<Rightarrow> snd (snd (snd (lists_value w l)))))"

definition setLists :: "PartialLists \<Rightarrow> 'h World \<Rightarrow> setLists_task \<times> 'h World" where
  "setLists update w = (case getLists False w of (p, w1) \<Rightarrow> (AwaitCurrent update p, w1))"

definition setLists_resume :: "setLists_task \<Rightarrow> 'h World \<Rightarrow> setLists_task \<times> 'h World" where
  "setLists_resume task w =
     (case task of
        AwaitCurrent update p \<Rightarrow>
          (case lists_result p w of
             (None, w1) \<Rightarrow> (task, w1)
           | (Some (Inl e), w1) \<Rightarrow> (Thrown e, w1)
           | (Some (Inr c), w1) \<Rightarrow>
               (AwaitSubmit (length (api_setLists w1)),
                w1\<lparr>listobjs := listobjs w1 @ [merge_lists (listobjs w1 ! c) update],
                   api_setLists := api_setLists w1 @ [(length (listobjs w1), Pending)]\<rparr>))
      | AwaitSubmit s \<Rightarrow>
          (case promise_at (map snd (api_setLists w)) s of
             Pending \<Rightarrow> (task, w)
           | Rejected e \<Rightarrow> (Thrown e, w)
           | Fulfilled u \<Rightarrow> (case getLists True w of (p, w1) \<Rightarrow> (AwaitRefresh p, w1)))
      | AwaitRefresh p \<Rightarrow>
          (case lists_result p w of
             (None, w1) \<Rightarrow> (task, w1)
           | (Some (Inl e), w1) \<Rightarrow> (Thrown e, w1)
           | (Some (Inr c), w1) \<Rightarrow> (Returned, w1))
      | Returned \<Rightarrow> (task, w)
      | Thrown e \<Rightarrow> (task, w))"

text \<open>The promise of the \<open>s\<close>-th call of \<open>_api.setLists\<close> is fulfilled, or rejected.\<close>

definition submit_settled :: "nat \<Rightarrow> unit promise \<Rightarrow> 'h World \<Rightarrow> 'h World" where
  "submit_settled s v w =
     (if promise_at (map snd (api_setLists w)) s = Pending \<and> s < length (api_setLists w)
      then w\<lparr>api_setLists := (api_setLists w)[s := (fst (api_setLists w ! s), v)]\<rparr>
      else w)"

subsection \<open>Construction\<close>

text \<open>
  The constructor (lines 32-57). \<open>init_World\<close> is the state before its last two
  statements: by the field initialisers \<open>_online\<close> is a new empty array and \<open>_lists\<close> a
  new object of four empty arrays, and \<open>_players\<close> is what the storage holds. The last
  two statements call \<open>getOverview()\<close> and \<open>getLists()\<close>.
\<close>

definition init_World :: "(string \<rightharpoonup> PlayerInfo) \<Rightarrow> 'h World" where
  "init_World stored =
     \<lparr>arrays = [[], [], [], [], []],
      overviews = [],
      listobjs = [\<lparr>adminlist = 1, modlist = 2, whitelist = 3, blacklist = 4\<rparr>],
      api_overview = [], api_lists = [], api_setLists = [],
      cache_overview = None, cache_lists = None,
      online_arr = 0, lists_obj = 0,
      players = stored, commands = Map.empty,
      events = [], calls = []\<rparr>"

definition new_World :: "(string \<rightharpoonup> PlayerInfo) \<Rightarrow> 'h World" where
  "new_World stored = snd (getLists False (snd (getOverview False (init_World stored))))"

text \<open>A World constructed over an empty storage, with handlers named by strings.\<close>

definition empty_World :: "string World" where
  "empty_World = new_World Map.empty"

subsection \<open>Three runs\<close>

text \<open>
  The first overview fetch is answered with owner STEVE and ALICE online; then a refresh
  is requested and fails; and a World whose first overview fetch is answered with owner
  Steve.
\<close>

definition loaded_World :: "string World" where
  "loaded_World = overview_fulfilled 0 0 (snd (make_overview ''STEVE'' [''ALICE''] empty_World))"

definition failed_refresh_World :: "string World" where
  "failed_refresh_World =
     overview_rejected 1 (Error ''offline'') (snd (getOverview True loaded_World))"

definition steve_World :: "string World" where
  "steve_World = overview_fulfilled 0 0 (snd (make_overview ''Steve'' [] empty_World))"

text \<open>
  A caller of \<open>getOverview\<close> receives its copy of the overview and pushes a name onto
  the array \<open>online\<close> of that copy.
\<close>

definition mutated_World :: "string World" where
  "mutated_World = array_write 5 [''ALICE'', ''MALLORY''] (snd (overview_result 0 loaded_World))"

text \<open>
  The lists fetch is answered with one name in each list, and a caller holds an array
  with a new admin list, which it passes to \<open>setLists\<close> as the only list provided.
\<close>

definition listed_World :: "string World" where
  "listed_World =
     snd (make_array [''ADMIN2'']
       (lists_fulfilled 0 1
          (snd (make_lists [''ADMIN1''] [''MOD1''] [''WHITE1''] [''BLACK1''] empty_World))))"

definition admin_update :: PartialLists where
  "admin_update =
     \<lparr>new_adminlist = Some 9, new_modlist = None, new_whitelist = None, new_blacklist = None\<rparr>"

text \<open>
  Alice has joined once; and a handler is registered for the command Kick.
\<close>

definition joined_World :: "string World" where
  "joined_World = onJoin ''Alice'' ''10.0.0.1'' empty_World"

definition kick_World :: "string World" where
  "kick_World = snd (addCommand ''Kick'' ''kickHandler'' empty_World)"

section \<open>Properties\<close>

subsection \<open>Canonical names\<close>

lemma upper_char_idem: "upper_char (upper_char c) = upper_char c"
  by (simp add: upper_char_def upper_table_def)

lemma toLocaleUpperCase_idem:
  "toLocaleUpperCase (toLocaleUpperCase s) = toLocaleUpperCase s"
  by (simp add: toLocaleUpperCase_def upper_char_idem)

lemma upper_table_distinct: "distinct (map fst upper_table)"
  by (simp add: upper_table_def)

lemma upper_table_disjoint: "set (map snd upper_table) \<inter> set (map fst upper_table) = {}"
  by (simp add: upper_table_def)

lemma upper_char_lower: "(c, d) \<in> set upper_table \<Longrightarrow> upper_char c = d"
  by (simp add: upper_char_def upper_table_distinct)

lemma upper_char_capital:
  assumes "(c, d) \<in> set upper_table"
  shows "upper_char d = d"
proof -
  from assms have "d \<in> set (map snd upper_table)" by force
  with upper_table_disjoint have "d \<notin> set (map fst upper_table)" by blast
  then have "map_of upper_table d = None" by (simp add: map_of_eq_None_iff)
  then show ?thesis by (simp add: upper_char_def)
qed

lemma same_letter_upper: "same_letter c d \<Longrightarrow> upper_char c = upper_char d"
  unfolding same_letter_def
  by (elim disjE) (simp_all add: upper_char_lower upper_char_capital)

lemma eq_up_to_case_upper:
  "eq_up_to_case a b \<Longrightarrow> toLocaleUpperCase a = toLocaleUpperCase b"
  unfolding eq_up_to_case_def toLocaleUpperCase_def
  by (induction a b rule: list_all2_induct) (simp_all add: same_letter_upper)

lemma same_letter_upper_self: "same_letter c (upper_char c)"
  by (simp add: same_letter_def upper_char_def upper_table_def)

lemma eq_up_to_case_upper_self: "eq_up_to_case s (toLocaleUpperCase s)"
  unfolding eq_up_to_case_def toLocaleUpperCase_def
  by (induction s) (simp_all add: same_letter_upper_self)

subsection \<open>Join accounting\<close>

lemma onJoin_other: "k \<noteq> toLocaleUpperCase nm \<Longrightarrow> players (onJoin nm a w) k = players w k"
  by (simp add: onJoin_def Let_def)

lemma onJoin_new:
  "players w (toLocaleUpperCase nm) = None \<Longrightarrow>
   players (onJoin nm a w) (toLocaleUpperCase nm) = Some \<lparr>ip = a, ips = [a], joins = 1, owner = None\<rparr>"
  by (simp add: onJoin_def Let_def)

lemma onJoin_old:
  "players w (toLocaleUpperCase nm) = Some r \<Longrightarrow>
   players (onJoin nm a w) (toLocaleUpperCase nm) =
     Some (r\<lparr>joins := joins r + 1, ip := a,
             ips := (if a \<in> set (ips r) then ips r else ips r @ [a])\<rparr>)"
  by (simp add: onJoin_def Let_def)

lemma onJoins_old:
  "players w k = Some r \<Longrightarrow> \<forall>e\<in>set evs. toLocaleUpperCase (fst e) = k \<Longrightarrow>
   \<exists>r'. players (onJoins evs w) k = Some r' \<and> joins r' = joins r + length evs \<and>
        set (ips r') = set (ips r) \<union> snd ` set evs \<and>
        (distinct (ips r) \<longrightarrow> distinct (ips r')) \<and>
        ip r' = last (ip r # map snd evs) \<and> owner r' = owner r"
proof (induction evs arbitrary: w r)
  case Nil
  then show ?case by simp
next
  case (Cons e evs)
  let ?r1 = "r\<lparr>joins := joins r + 1, ip := snd e,
             ips := (if snd e \<in> set (ips r) then ips r else ips r @ [snd e])\<rparr>"
  from Cons.prems have k: "toLocaleUpperCase (fst e) = k" by simp
  with Cons.prems(1) have "players (onJoin (fst e) (snd e) w) k = Some ?r1"
    using onJoin_old [of w "fst e" r "snd e"] by simp
  moreover from Cons.prems have "\<forall>e\<in>set evs. toLocaleUpperCase (fst e) = k" by simp
  ultimately obtain r' where r': "players (onJoins evs (onJoin (fst e) (snd e) w)) k = Some r'"
      "joins r' = joins ?r1 + length evs" "set (ips r') = set (ips ?r1) \<union> snd ` set evs"
      "distinct (ips ?r1) \<longrightarrow> distinct (ips r')" "ip r' = last (ip ?r1 # map snd evs)"
      "owner r' = owner ?r1"
    using Cons.IH [of "onJoin (fst e) (snd e) w" ?r1] by blast
  show ?case
  proof (intro exI conjI)
    show "players (onJoins (e # evs) w) k = Some r'" using r'(1) by simp
    show "joins r' = joins r + length (e # evs)" using r'(2) by simp
    show "set (ips r') = set (ips r) \<union> snd ` set (e # evs)" using r'(3) by auto
    show "distinct (ips r) \<longrightarrow> distinct (ips r')" using r'(4) by simp
    show "ip r' = last (ip r # map snd (e # evs))" using r'(5) by simp
    show "owner r' = owner r" using r'(6) by simp
  qed
qed

lemma onJoins_new:
  assumes "players w k = None" and "evs \<noteq> []" and "\<forall>e\<in>set evs. toLocaleUpperCase (fst e) = k"
  shows "\<exists>r. players (onJoins evs w) k = Some r \<and> joins r = length evs \<and>
        set (ips r) = snd ` set evs \<and> distinct (ips r) \<and> ip r = snd (last evs) \<and> owner r = None"
proof -
  from assms(2) obtain e es where evs: "evs = e # es" by (cases evs) auto
  let ?r1 = "\<lparr>ip = snd e, ips = [snd e], joins = 1, owner = None\<rparr>"
  from assms(3) evs have k: "toLocaleUpperCase (fst e) = k" by simp
  with assms(1) have "players (onJoin (fst e) (snd e) w) k = Some ?r1"
    using onJoin_new [of w "fst e" "snd e"] by simp
  moreover from assms(3) evs have "\<forall>e\<in>set es. toLocaleUpperCase (fst e) = k" by simp
  ultimately obtain r' where r': "players (onJoins es (onJoin (fst e) (snd e) w)) k = Some r'"
      "joins r' = joins ?r1 + length es" "set (ips r') = set (ips ?r1) \<union> snd ` set es"
      "distinct (ips ?r1) \<longrightarrow> distinct (ips r')" "ip r' = last (ip ?r1 # map snd es)"
      "owner r' = owner ?r1"
    using onJoins_old [of "onJoin (fst e) (snd e) w" k ?r1 es] by blast
  show ?thesis
  proof (intro exI conjI)
    show "players (onJoins evs w) k = Some r'" using r'(1) evs by simp
    show "joins r' = length evs" using r'(2) evs by simp
    show "set (ips r') = snd ` set evs" using r'(3) evs by auto
    show "distinct (ips r')" using r'(4) by simp
    show "ip r' = snd (last evs)" using r'(5) evs by (simp add: last_map)
    show "owner r' = None" using r'(6) by simp
  qed
qed

lemma empty_World_eq:
  "empty_World =
     \<lparr>arrays = [[], [], [], [], []],
      overviews = [],
      listobjs = [\<lparr>adminlist = 1, modlist = 2, whitelist = 3, blacklist = 4\<rparr>],
      api_overview = [Pending], api_lists = [Pending], api_setLists = [],
      cache_overview = Some 0, cache_lists = Some 0,
      online_arr = 0, lists_obj = 0,
      players = Map.empty, commands = Map.empty,
      events = [], calls = []\<rparr>"
  by (simp add: empty_World_def new_World_def init_World_def getOverview_def getLists_def
      fetch_overview_def fetch_lists_def)

lemma empty_World_players: "players empty_World k = None"
  by (simp add: empty_World_def new_World_def init_World_def getOverview_def getLists_def
      fetch_overview_def fetch_lists_def)

text \<open>
  C4. After a sequence of join events whose names all canonicalize to the identity \<open>k\<close>,
  handled from a registry with no record for \<open>k\<close>, the record of \<open>k\<close> (as \<open>getPlayer\<close>
  shows it for any name \<open>n\<close> of that identity) has a join count equal to the number of
  events and an address history that holds exactly the addresses passed, each once; when
  there was at least one event, the record is in the registry and its last address is
  the address of the last join.
\<close>

theorem join_accounting:
  assumes "toLocaleUpperCase n = k"
    and "players w k = None"
    and "\<forall>e\<in>set evs. toLocaleUpperCase (fst e) = k"
  shows "joins (player_info (getPlayer n (onJoins evs w))) = length evs \<and>
         set (ips (player_info (getPlayer n (onJoins evs w)))) = snd ` set evs \<and>
         distinct (ips (player_info (getPlayer n (onJoins evs w)))) \<and>
         (evs \<noteq> [] \<longrightarrow>
            players (onJoins evs w) k = Some (player_info (getPlayer n (onJoins evs w))) \<and>
            ip (player_info (getPlayer n (onJoins evs w))) = snd (last evs))"
proof (cases "evs = []")
  case True
  with assms(1,2) show ?thesis by (simp add: getPlayer_def)
next
  case False
  from onJoins_new [OF assms(2) False assms(3)]
  obtain r where r: "players (onJoins evs w) k = Some r" "joins r = length evs"
      "set (ips r) = snd ` set evs" "distinct (ips r)" "ip r = snd (last evs)"
    by blast
  from r(1) assms(1) have "player_info (getPlayer n (onJoins evs w)) = r"
    by (simp add: getPlayer_def)
  with r show ?thesis by simp
qed

theorem join_accounting_witness:
  "toLocaleUpperCase ''alice'' = ''ALICE'' \<and> players empty_World ''ALICE'' = None \<and>
   toLocaleUpperCase ''Alice'' = ''ALICE'' \<and> toLocaleUpperCase ''ALICE'' = ''ALICE'' \<and>
   joins (player_info (getPlayer ''alice''
     (onJoins [(''Alice'', ''10.0.0.1''), (''ALICE'', ''10.0.0.2''), (''alice'', ''10.0.0.1'')]
        empty_World))) = 3 \<and>
   set (ips (player_info (getPlayer ''alice''
     (onJoins [(''Alice'', ''10.0.0.1''), (''ALICE'', ''10.0.0.2''), (''alice'', ''10.0.0.1'')]
        empty_World)))) = {''10.0.0.1'', ''10.0.0.2''} \<and>
   ip (player_info (getPlayer ''alice''
     (onJoins [(''Alice'', ''10.0.0.1''), (''ALICE'', ''10.0.0.2''), (''alice'', ''10.0.0.1'')]
        empty_World))) = ''10.0.0.1''"
proof -
  have u1: "toLocaleUpperCase ''alice'' = ''ALICE''"
    by (simp add: toLocaleUpperCase_def upper_char_def upper_table_def)
  have u2: "toLocaleUpperCase ''Alice'' = ''ALICE''"
    by (simp add: toLocaleUpperCase_def upper_char_def upper_table_def)
  have u3: "toLocaleUpperCase ''ALICE'' = ''ALICE''"
    by (simp add: toLocaleUpperCase_def upper_char_def upper_table_def)
  have h: "\<forall>e\<in>set [(''Alice'', ''10.0.0.1''), (''ALICE'', ''10.0.0.2''), (''alice'', ''10.0.0.1'')].
             toLocaleUpperCase (fst e) = ''ALICE''"
    by (simp add: u1 u2 u3)
  note t = join_accounting [OF u1 empty_World_players h]
  have j: "joins (player_info (getPlayer ''alice''
     (onJoins [(''Alice'', ''10.0.0.1''), (''ALICE'', ''10.0.0.2''), (''alice'', ''10.0.0.1'')]
        empty_World))) = 3"
    using t by simp
  have s: "set (ips (player_info (getPlayer ''alice''
     (onJoins [(''Alice'', ''10.0.0.1''), (''ALICE'', ''10.0.0.2''), (''alice'', ''10.0.0.1'')]
        empty_World)))) = {''10.0.0.1'', ''10.0.0.2''}"
    using t by auto
  have l: "ip (player_info (getPlayer ''alice''
     (onJoins [(''Alice'', ''10.0.0.1''), (''ALICE'', ''10.0.0.2''), (''alice'', ''10.0.0.1'')]
        empty_World))) = ''10.0.0.1''"
    using t by simp
  show ?thesis by (intro conjI u1 u2 u3 j s l empty_World_players)
qed

subsection \<open>Names are resolved case-insensitively\<close>

lemma joined_World_players:
  "players joined_World =
     [''ALICE'' \<mapsto> \<lparr>ip = ''10.0.0.1'', ips = [''10.0.0.1''], joins = 1, owner = None\<rparr>]"
  by (simp add: joined_World_def onJoin_def empty_World_eq Let_def toLocaleUpperCase_def
      upper_char_def upper_table_def)

text \<open>
  C9. For two names that are equal up to letter case, \<open>getPlayer\<close> reads the registry at
  the same key, the upper-case form of either name, and returns the same player: its
  name is that key, its record is the record the registry holds under that key (the
  zero-valued one when it holds none), and its lists are the current lists object.
  Canonicalizing a canonical name changes nothing, so \<open>getPlayer\<close> of the canonical name
  is \<open>getPlayer\<close> of the name.
\<close>

theorem getPlayer_canonical:
  assumes "eq_up_to_case a b"
  shows "toLocaleUpperCase a = toLocaleUpperCase b \<and> getPlayer a w = getPlayer b w \<and>
         toLocaleUpperCase (toLocaleUpperCase a) = toLocaleUpperCase a \<and>
         getPlayer (toLocaleUpperCase a) w = getPlayer a w \<and>
         player_name (getPlayer a w) = toLocaleUpperCase b \<and>
         player_info (getPlayer a w) =
           (case players w (toLocaleUpperCase b) of
              Some i \<Rightarrow> i
            | None \<Rightarrow> \<lparr>ip = [], ips = [], joins = 0, owner = None\<rparr>) \<and>
         player_lists (getPlayer a w) = lists_obj w \<and>
         (players w (toLocaleUpperCase b) = Some r \<longrightarrow>
            player_info (getPlayer a w) = r \<and> player_info (getPlayer b w) = r)"
  using eq_up_to_case_upper [OF assms]
  by (simp add: getPlayer_def toLocaleUpperCase_idem Let_def)

theorem getPlayer_canonical_witness:
  "eq_up_to_case ''Alice'' ''ALICE'' \<and>
   toLocaleUpperCase ''Alice'' = ''ALICE'' \<and>
   toLocaleUpperCase ''ALICE'' = ''ALICE'' \<and>
   players joined_World ''ALICE'' =
     Some \<lparr>ip = ''10.0.0.1'', ips = [''10.0.0.1''], joins = 1, owner = None\<rparr> \<and>
   getPlayer ''Alice'' joined_World = getPlayer ''ALICE'' joined_World \<and>
   player_name (getPlayer ''Alice'' joined_World) = ''ALICE'' \<and>
   player_info (getPlayer ''Alice'' joined_World) =
     \<lparr>ip = ''10.0.0.1'', ips = [''10.0.0.1''], joins = 1, owner = None\<rparr> \<and>
   player_info (getPlayer ''ALICE'' joined_World) =
     \<lparr>ip = ''10.0.0.1'', ips = [''10.0.0.1''], joins = 1, owner = None\<rparr>"
proof -
  have h: "eq_up_to_case ''Alice'' ''ALICE''"
    by (simp add: eq_up_to_case_def same_letter_def upper_table_def)
  have u: "toLocaleUpperCase ''Alice'' = ''ALICE''"
    by (simp add: toLocaleUpperCase_def upper_char_def upper_table_def)
  have u2: "toLocaleUpperCase ''ALICE'' = ''ALICE''"
    by (simp add: toLocaleUpperCase_def upper_char_def upper_table_def)
  have p: "players joined_World (toLocaleUpperCase ''ALICE'') =
     Some \<lparr>ip = ''10.0.0.1'', ips = [''10.0.0.1''], joins = 1, owner = None\<rparr>"
    by (simp add: u2 joined_World_players)
  have p': "players joined_World ''ALICE'' =
     Some \<lparr>ip = ''10.0.0.1'', ips = [''10.0.0.1''], joins = 1, owner = None\<rparr>"
    using p by (simp only: u2)
  note t = getPlayer_canonical [OF h, where w = joined_World
      and r = "\<lparr>ip = ''10.0.0.1'', ips = [''10.0.0.1''], joins = 1, owner = None\<rparr>"]
  from t have g: "getPlayer ''Alice'' joined_World = getPlayer ''ALICE'' joined_World"
    by blast
  from t have n: "player_name (getPlayer ''Alice'' joined_World) = toLocaleUpperCase ''ALICE''"
    by blast
  from t p have i: "player_info (getPlayer ''Alice'' joined_World) =
       \<lparr>ip = ''10.0.0.1'', ips = [''10.0.0.1''], joins = 1, owner = None\<rparr> \<and>
     player_info (getPlayer ''ALICE'' joined_World) =
       \<lparr>ip = ''10.0.0.1'', ips = [''10.0.0.1''], joins = 1, owner = None\<rparr>"
    by blast
  have n': "player_name (getPlayer ''Alice'' joined_World) = ''ALICE''"
    using n by (simp only: u2)
  show ?thesis using i by (intro conjI h u u2 p' g n') blast+
qed

subsection \<open>Commands\<close>

lemma getPlayer_events [simp]: "getPlayer nm (w\<lparr>events := es\<rparr>) = getPlayer nm w"
  by (simp add: getPlayer_def)

lemma match_command_shape:
  assumes "c \<noteq> []" and "CHR '' '' \<notin> set c" and "\<not> list_ex line_terminator a"
  shows "match_command (CHR ''/'' # c @ CHR '' '' # a) = Some (c, a)"
    and "test_command (CHR ''/'' # c @ CHR '' '' # a)"
proof -
  from assms(2) have t: "takeWhile (\<lambda>x. x \<noteq> CHR '' '') (c @ CHR '' '' # a) = c"
    by (induction c) auto
  from assms(2) have d: "dropWhile (\<lambda>x. x \<noteq> CHR '' '') (c @ CHR '' '' # a) = CHR '' '' # a"
    by (induction c) auto
  from assms(1,3) t d show "match_command (CHR ''/'' # c @ CHR '' '' # a) = Some (c, a)"
    by (simp add: match_command_def Let_def)
  from assms(1,2) show "test_command (CHR ''/'' # c @ CHR '' '' # a)"
    by (cases c) (auto simp: test_command_def)
qed

lemma onMessage_handler:
  assumes "test_command m" and "match_command m = Some (c, a)"
    and "commands w (toLocaleUpperCase c) = Some h"
  shows "onMessage nm m w =
           (None, w\<lparr>events := events w @ [MessageEvent (getPlayer nm w) m],
                    calls := calls w @ [(h, getPlayer nm w, a)]\<rparr>)"
  using assms by (simp add: onMessage_def Let_def)

lemma onMessage_unknown:
  assumes "test_command m" and "match_command m = Some (c, a)"
    and "commands w (toLocaleUpperCase c) = None"
  shows "onMessage nm m w = (None, w\<lparr>events := events w @ [MessageEvent (getPlayer nm w) m]\<rparr>)"
  using assms by (simp add: onMessage_def Let_def)

lemma onMessage_plain:
  assumes "\<not> test_command m"
  shows "onMessage nm m w = (None, w\<lparr>events := events w @ [MessageEvent (getPlayer nm w) m]\<rparr>)"
  using assms by (simp add: onMessage_def Let_def)

lemma onMessage_events:
  "events (snd (onMessage nm m w)) = events w @ [MessageEvent (getPlayer nm w) m]"
  by (simp add: onMessage_def Let_def split: option.splits prod.splits)

lemma addCommand_commands:
  "commands (snd (addCommand t h w)) k =
     (if k = toLocaleUpperCase t \<and> commands w k = None then Some h else commands w k)"
  by (auto simp: addCommand_def Let_def dom_def)

lemma addCommand_calls: "calls (snd (addCommand t h w)) = calls w"
  by (simp add: addCommand_def Let_def)

lemma empty_World_commands: "commands empty_World k = None"
  by (simp add: empty_World_def new_World_def init_World_def getOverview_def getLists_def
      fetch_overview_def fetch_lists_def)

lemma empty_World_calls: "calls empty_World = []"
  by (simp add: empty_World_def new_World_def init_World_def getOverview_def getLists_def
      fetch_overview_def fetch_lists_def)

text \<open>
  What the handler does with a message made of a slash, a token without spaces, a space
  and arguments: without a line terminator in the arguments it invokes the handler of
  the token, if there is one, and throws nothing; with one, the second match is \<open>null\<close>
  and the handler throws, whatever is registered. A message that does not start with a
  slash followed by a character other than a space invokes nothing and throws nothing.
\<close>

lemma match_command_line_terminator:
  assumes "c \<noteq> []" and "CHR '' '' \<notin> set c" and "list_ex line_terminator a"
  shows "match_command (CHR ''/'' # c @ CHR '' '' # a) = None"
    and "test_command (CHR ''/'' # c @ CHR '' '' # a)"
proof -
  from assms(2) have t: "takeWhile (\<lambda>x. x \<noteq> CHR '' '') (c @ CHR '' '' # a) = c"
    by (induction c) auto
  from assms(2) have d: "dropWhile (\<lambda>x. x \<noteq> CHR '' '') (c @ CHR '' '' # a) = CHR '' '' # a"
    by (induction c) auto
  from assms(3) t d show "match_command (CHR ''/'' # c @ CHR '' '' # a) = None"
    by (simp add: match_command_def Let_def)
  from assms(1,2) show "test_command (CHR ''/'' # c @ CHR '' '' # a)"
    by (cases c) (auto simp: test_command_def)
qed

lemma onMessage_command:
  assumes "c \<noteq> []" and "CHR '' '' \<notin> set c" and "\<not> list_ex line_terminator a"
  shows "onMessage nm (CHR ''/'' # c @ CHR '' '' # a) w =
     (None,
      case commands w (toLocaleUpperCase c) of
        Some h \<Rightarrow>
          w\<lparr>events := events w @ [MessageEvent (getPlayer nm w) (CHR ''/'' # c @ CHR '' '' # a)],
            calls := calls w @ [(h, getPlayer nm w, a)]\<rparr>
      | None \<Rightarrow>
          w\<lparr>events := events w @ [MessageEvent (getPlayer nm w) (CHR ''/'' # c @ CHR '' '' # a)]\<rparr>)"
  using match_command_shape [OF assms]
  by (simp add: onMessage_def Let_def split: option.splits)

lemma onMessage_throws:
  assumes "c \<noteq> []" and "CHR '' '' \<notin> set c" and "list_ex line_terminator a"
  shows "onMessage nm (CHR ''/'' # c @ CHR '' '' # a) w =
     (Some TypeError,
      w\<lparr>events := events w @ [MessageEvent (getPlayer nm w) (CHR ''/'' # c @ CHR '' '' # a)]\<rparr>)"
  using match_command_line_terminator [OF assms]
  by (simp add: onMessage_def Let_def)

lemma onMessage_no_slash:
  assumes "m = [] \<or> hd m \<noteq> CHR ''/'' \<or> tl m = [] \<or> hd (tl m) = CHR '' ''"
  shows "onMessage nm m w =
     (None, w\<lparr>events := events w @ [MessageEvent (getPlayer nm w) m]\<rparr>)"
proof -
  from assms have "\<not> test_command m"
    by (auto simp: test_command_def split: list.splits)
  then show ?thesis by (rule onMessage_plain)
qed

lemma kick_World_eq:
  "kick_World = empty_World\<lparr>commands := [''KICK'' \<mapsto> ''kickHandler'']\<rparr>"
  by (simp add: kick_World_def addCommand_def Let_def empty_World_eq toLocaleUpperCase_def
      upper_char_def upper_table_def)

text \<open>
  C6 on the code. With a handler registered under Kick, the message \<open>/kick griefer\<close>
  invokes exactly that handler with the arguments \<open>griefer\<close> (\<open>/kick\<close> invokes it with
  empty arguments), and \<open>/unknown x\<close>, \<open>kick griefer\<close> and \<open>/ kick\<close> invoke nothing
  and throw nothing; the message event is published each time. But the
  message \<open>/unknown x\<close> followed by a line feed passes the test of line 48 and is not
  matched by the expression of line 49, whose dot stops at a line terminator: the
  destructuring of \<open>null\<close> throws a TypeError, after the message event was published.
  So does \<open>/kick griefer\<close> followed by a carriage return, without invoking the handler.
\<close>

theorem command_message_throws:
  "commands kick_World ''KICK'' = Some ''kickHandler'' \<and>
   commands kick_World ''UNKNOWN'' = None \<and>
   onMessage ''bob'' ''/kick griefer'' kick_World =
     (None,
      kick_World\<lparr>events := [MessageEvent (getPlayer ''bob'' kick_World) ''/kick griefer''],
                 calls := [(''kickHandler'', getPlayer ''bob'' kick_World, ''griefer'')]\<rparr>) \<and>
   onMessage ''bob'' ''/unknown x'' kick_World =
     (None, kick_World\<lparr>events := [MessageEvent (getPlayer ''bob'' kick_World) ''/unknown x'']\<rparr>) \<and>
   onMessage ''bob'' ''/kick'' kick_World =
     (None,
      kick_World\<lparr>events := [MessageEvent (getPlayer ''bob'' kick_World) ''/kick''],
                 calls := [(''kickHandler'', getPlayer ''bob'' kick_World, [])]\<rparr>) \<and>
   onMessage ''bob'' ''kick griefer'' kick_World =
     (None, kick_World\<lparr>events := [MessageEvent (getPlayer ''bob'' kick_World) ''kick griefer'']\<rparr>) \<and>
   onMessage ''bob'' ''/ kick'' kick_World =
     (None, kick_World\<lparr>events := [MessageEvent (getPlayer ''bob'' kick_World) ''/ kick'']\<rparr>) \<and>
   test_command (''/unknown x'' @ [CHR 0x0A]) \<and>
   match_command (''/unknown x'' @ [CHR 0x0A]) = None \<and>
   onMessage ''bob'' (''/unknown x'' @ [CHR 0x0A]) kick_World =
     (Some TypeError,
      kick_World\<lparr>events :=
        [MessageEvent (getPlayer ''bob'' kick_World) (''/unknown x'' @ [CHR 0x0A])]\<rparr>) \<and>
   onMessage ''bob'' (''/kick griefer'' @ [CHR 0x0D]) kick_World =
     (Some TypeError,
      kick_World\<lparr>events :=
        [MessageEvent (getPlayer ''bob'' kick_World) (''/kick griefer'' @ [CHR 0x0D])]\<rparr>)"
  by (simp add: kick_World_eq empty_World_eq onMessage_def test_command_def match_command_def
      line_terminator_def getPlayer_def Let_def toLocaleUpperCase_def upper_char_def upper_table_def)

text \<open>
  C7. When a token is registered, \<open>addCommand\<close> with a token equal to it up to letter
  case throws the error of line 186 and leaves the state as it was; a command message
  for that token still invokes the handler registered first.
\<close>

theorem addCommand_duplicate:
  assumes "commands w (toLocaleUpperCase t) = Some h" and "eq_up_to_case t' t"
  shows "addCommand t' h' w =
           (Some (Error (''The command '' @ [CHR 0x22] @ toLocaleUpperCase t @ [CHR 0x22] @
                         '' has already been added.'')), w) \<and>
         (test_command m \<and> match_command m = Some (c, a) \<and> eq_up_to_case c t \<longrightarrow>
            onMessage nm m (snd (addCommand t' h' w)) =
              (None, w\<lparr>events := events w @ [MessageEvent (getPlayer nm w) m],
                       calls := calls w @ [(h, getPlayer nm w, a)]\<rparr>))"
proof -
  from assms(2) have u: "toLocaleUpperCase t' = toLocaleUpperCase t"
    by (rule eq_up_to_case_upper)
  with assms(1) have r: "addCommand t' h' w =
           (Some (Error (''The command '' @ [CHR 0x22] @ toLocaleUpperCase t @ [CHR 0x22] @
                         '' has already been added.'')), w)"
    by (simp add: addCommand_def Let_def dom_def)
  have "onMessage nm m (snd (addCommand t' h' w)) =
              (None, w\<lparr>events := events w @ [MessageEvent (getPlayer nm w) m],
                       calls := calls w @ [(h, getPlayer nm w, a)]\<rparr>)"
    if "test_command m" "match_command m = Some (c, a)" "eq_up_to_case c t"
  proof -
    from that(3) have "toLocaleUpperCase c = toLocaleUpperCase t"
      by (rule eq_up_to_case_upper)
    with assms(1) have "commands w (toLocaleUpperCase c) = Some h" by simp
    with that(1,2) show ?thesis by (simp add: r onMessage_handler)
  qed
  with r show ?thesis by blast
qed

theorem addCommand_duplicate_witness:
  "commands (snd (addCommand ''kick'' ''first'' empty_World)) (toLocaleUpperCase ''kick'')
     = Some ''first'' \<and>
   eq_up_to_case ''KICK'' ''kick'' \<and>
   addCommand ''KICK'' ''second'' (snd (addCommand ''kick'' ''first'' empty_World)) =
     (Some (Error (''The command '' @ [CHR 0x22] @ ''KICK'' @ [CHR 0x22] @
                   '' has already been added.'')),
      snd (addCommand ''kick'' ''first'' empty_World)) \<and>
   test_command ''/Kick x'' \<and> match_command ''/Kick x'' = Some (''Kick'', ''x'') \<and>
   eq_up_to_case ''Kick'' ''kick'' \<and>
   calls (snd (onMessage ''bob'' ''/Kick x''
     (snd (addCommand ''KICK'' ''second'' (snd (addCommand ''kick'' ''first'' empty_World)))))) =
     [(''first'', getPlayer ''bob'' (snd (addCommand ''kick'' ''first'' empty_World)), ''x'')]"
proof -
  let ?W = "snd (addCommand ''kick'' ''first'' empty_World)"
  have k: "commands ?W (toLocaleUpperCase ''kick'') = Some ''first''"
    by (simp add: addCommand_commands empty_World_commands)
  have e: "eq_up_to_case ''KICK'' ''kick''"
    by (simp add: eq_up_to_case_def same_letter_def upper_table_def)
  have e2: "eq_up_to_case ''Kick'' ''kick''"
    by (simp add: eq_up_to_case_def same_letter_def upper_table_def)
  have u: "toLocaleUpperCase ''kick'' = ''KICK''"
    by (simp add: toLocaleUpperCase_def upper_char_def upper_table_def)
  have x1: "test_command ''/Kick x''"
    by (simp add: test_command_def)
  have x2: "match_command ''/Kick x'' = Some (''Kick'', ''x'')"
    by (simp add: match_command_def line_terminator_def)
  have c0: "calls ?W = []"
    by (simp add: addCommand_calls empty_World_calls)
  note d = addCommand_duplicate [OF k e, where h' = "''second''"]
  have r1: "addCommand ''KICK'' ''second'' ?W =
     (Some (Error (''The command '' @ [CHR 0x22] @ ''KICK'' @ [CHR 0x22] @
                   '' has already been added.'')), ?W)"
    using d [THEN conjunct1] by (simp only: u)
  have r2: "onMessage ''bob'' ''/Kick x'' (snd (addCommand ''KICK'' ''second'' ?W)) =
     (None, ?W\<lparr>events := events ?W @ [MessageEvent (getPlayer ''bob'' ?W) ''/Kick x''],
              calls := calls ?W @ [(''first'', getPlayer ''bob'' ?W, ''x'')]\<rparr>)"
    by (rule d [THEN conjunct2, rule_format, OF conjI [OF x1 conjI [OF x2 e2]]])
  have r3: "calls (snd (onMessage ''bob'' ''/Kick x'' (snd (addCommand ''KICK'' ''second'' ?W)))) =
     [(''first'', getPlayer ''bob'' ?W, ''x'')]"
    by (simp add: r2 c0)
  show ?thesis by (intro conjI k e r1 x1 x2 e2 r3)
qed

subsection \<open>The overview cache\<close>

lemma getOverview_cached: "cache_overview w = Some p \<Longrightarrow> getOverview False w = (p, w)"
  by (simp add: getOverview_def)

lemma getOverview_refresh:
  "getOverview True w =
     (length (api_overview w),
      w\<lparr>api_overview := api_overview w @ [Pending],
        cache_overview := Some (length (api_overview w))\<rparr>)"
  by (simp add: getOverview_def fetch_overview_def split: option.splits)

lemma getOverview_empty:
  "cache_overview w = None \<Longrightarrow>
   getOverview r w =
     (length (api_overview w),
      w\<lparr>api_overview := api_overview w @ [Pending],
        cache_overview := Some (length (api_overview w))\<rparr>)"
  by (simp add: getOverview_def fetch_overview_def)

lemma getOverviews_cached:
  "cache_overview w = Some p \<Longrightarrow> getOverviews (replicate n False) w = (replicate n p, w)"
  by (induction n) (simp_all add: getOverview_cached)

lemma getOverview_slot: "\<exists>q. cache_overview (snd (getOverview r w)) = Some q"
  by (simp add: getOverview_def fetch_overview_def split: option.splits)

lemma getOverview_count:
  "cache_overview w = Some p \<Longrightarrow>
   length (api_overview (snd (getOverview r w))) = length (api_overview w) + (if r then 1 else 0)"
  by (simp add: getOverview_def fetch_overview_def)

lemma getOverviews_Cons_snd:
  "snd (getOverviews (r # rs) w) = snd (getOverviews rs (snd (getOverview r w)))"
  by (simp split: prod.splits)

lemma getOverviews_count:
  "cache_overview w = Some p \<Longrightarrow>
   length (api_overview (snd (getOverviews flags w))) =
     length (api_overview w) + length (filter (\<lambda>r. r) flags)"
proof (induction flags arbitrary: w p)
  case Nil
  then show ?case by simp
next
  case (Cons r rs)
  obtain q where q: "cache_overview (snd (getOverview r w)) = Some q"
    using getOverview_slot by blast
  from Cons.IH [OF q] getOverview_count [OF Cons.prems, of r]
  show ?case by (simp only: getOverviews_Cons_snd) (simp split: if_splits)
qed

lemma loaded_World_eq:
  "loaded_World =
     \<lparr>arrays = [[''ALICE''], [], [], [], [], [''ALICE'']],
      overviews = [\<lparr>overview_owner = ''STEVE'', overview_online = 5\<rparr>],
      listobjs = [\<lparr>adminlist = 1, modlist = 2, whitelist = 3, blacklist = 4\<rparr>],
      api_overview = [Fulfilled 0], api_lists = [Pending], api_setLists = [],
      cache_overview = Some 0, cache_lists = Some 0,
      online_arr = 0, lists_obj = 0,
      players = [''STEVE'' \<mapsto> \<lparr>ip = [], ips = [], joins = 0, owner = Some True\<rparr>],
      commands = Map.empty,
      events = [], calls = []\<rparr>"
  by (simp add: loaded_World_def empty_World_eq make_overview_def overview_fulfilled_def
      overview_loaded_def promise_at_def merge_online_def Let_def)

lemma steve_World_eq:
  "steve_World =
     \<lparr>arrays = [[], [], [], [], [], []],
      overviews = [\<lparr>overview_owner = ''Steve'', overview_online = 5\<rparr>],
      listobjs = [\<lparr>adminlist = 1, modlist = 2, whitelist = 3, blacklist = 4\<rparr>],
      api_overview = [Fulfilled 0], api_lists = [Pending], api_setLists = [],
      cache_overview = Some 0, cache_lists = Some 0,
      online_arr = 0, lists_obj = 0,
      players = [''Steve'' \<mapsto> \<lparr>ip = [], ips = [], joins = 0, owner = Some True\<rparr>],
      commands = Map.empty,
      events = [], calls = []\<rparr>"
  by (simp add: steve_World_def empty_World_eq make_overview_def overview_fulfilled_def
      overview_loaded_def promise_at_def merge_online_def Let_def)

lemma failed_refresh_World_eq:
  "failed_refresh_World =
     \<lparr>arrays = [[''ALICE''], [], [], [], [], [''ALICE'']],
      overviews = [\<lparr>overview_owner = ''STEVE'', overview_online = 5\<rparr>],
      listobjs = [\<lparr>adminlist = 1, modlist = 2, whitelist = 3, blacklist = 4\<rparr>],
      api_overview = [Fulfilled 0, Rejected (Error ''offline'')],
      api_lists = [Pending], api_setLists = [],
      cache_overview = Some 1, cache_lists = Some 0,
      online_arr = 0, lists_obj = 0,
      players = [''STEVE'' \<mapsto> \<lparr>ip = [], ips = [], joins = 0, owner = Some True\<rparr>],
      commands = Map.empty,
      events = [], calls = []\<rparr>"
  by (simp add: failed_refresh_World_def loaded_World_eq getOverview_def fetch_overview_def
      overview_rejected_def settle_def promise_at_def)

lemma promise_at_append_new: "promise_at (ps @ [v]) (length ps) = v"
  by (simp add: promise_at_def)

lemma promise_at_append_old: "p < length ps \<Longrightarrow> promise_at (ps @ [v]) p = promise_at ps p"
  by (simp add: promise_at_def nth_append)

lemma promise_at_settled: "promise_at ps p \<noteq> Pending \<Longrightarrow> p < length ps"
  by (simp add: promise_at_def split: if_splits)

text \<open>
  C1, as the code has it. While the slot holds a pending promise, every call with
  \<open>refresh = false\<close> returns that promise and issues no remote fetch; from an empty
  slot, a first call and any number of calls with \<open>refresh = false\<close> after it issue
  one remote fetch and share its promise (so do two concurrent \<open>getOverview()\<close>). A
  call with \<open>refresh = true\<close> always issues a new remote fetch and puts its promise in
  the slot, also while a fetch is outstanding: a sequence of calls on a filled slot
  issues as many remote fetches as it has calls with \<open>refresh = true\<close>.
\<close>

theorem getOverview_single_flight:
  "(cache_overview w = Some p \<and> promise_at (api_overview w) p = Pending \<longrightarrow>
      getOverviews (replicate n False) w = (replicate n p, w) \<and>
      overview_result p w = (None, w)) \<and>
   (cache_overview w = None \<longrightarrow>
      getOverviews (r # replicate n False) w =
        (replicate (Suc n) (length (api_overview w)),
         w\<lparr>api_overview := api_overview w @ [Pending],
           cache_overview := Some (length (api_overview w))\<rparr>)) \<and>
   (cache_overview w = Some p \<longrightarrow>
      length (api_overview (snd (getOverviews flags w))) =
        length (api_overview w) + length (filter (\<lambda>r. r) flags)) \<and>
   getOverview True w =
     (length (api_overview w),
      w\<lparr>api_overview := api_overview w @ [Pending],
        cache_overview := Some (length (api_overview w))\<rparr>)"
proof (intro conjI impI)
  assume a: "cache_overview w = Some p \<and> promise_at (api_overview w) p = Pending"
  then show "getOverviews (replicate n False) w = (replicate n p, w)"
    by (simp add: getOverviews_cached)
  from a show "overview_result p w = (None, w)"
    by (simp add: overview_result_def)
next
  assume "cache_overview w = None"
  then show "getOverviews (r # replicate n False) w =
        (replicate (Suc n) (length (api_overview w)),
         w\<lparr>api_overview := api_overview w @ [Pending],
           cache_overview := Some (length (api_overview w))\<rparr>)"
    by (simp add: getOverview_empty getOverviews_cached)
next
  assume "cache_overview w = Some p"
  then show "length (api_overview (snd (getOverviews flags w))) =
        length (api_overview w) + length (filter (\<lambda>r. r) flags)"
    by (rule getOverviews_count)
next
  show "getOverview True w =
     (length (api_overview w),
      w\<lparr>api_overview := api_overview w @ [Pending],
        cache_overview := Some (length (api_overview w))\<rparr>)"
    by (rule getOverview_refresh)
qed

theorem getOverview_single_flight_witness:
  "cache_overview empty_World = Some 0 \<and> promise_at (api_overview empty_World) 0 = Pending \<and>
   getOverviews [False, False] empty_World = ([0, 0], empty_World) \<and>
   cache_overview (init_World Map.empty :: string World) = None \<and>
   fst (getOverviews [False, False] (init_World Map.empty :: string World)) = [0, 0] \<and>
   api_overview (snd (getOverviews [False, False] (init_World Map.empty :: string World)))
     = [Pending] \<and>
   length (api_overview (snd (getOverviews [False, True, False] empty_World))) = 2"
proof -
  let ?I = "init_World Map.empty :: string World"
  have c: "cache_overview empty_World = Some 0" by (simp add: empty_World_eq)
  have q: "promise_at (api_overview empty_World) 0 = Pending"
    by (simp add: empty_World_eq promise_at_def)
  have n: "cache_overview ?I = None" by (simp add: init_World_def)
  have l: "length (api_overview empty_World) = 1" by (simp add: empty_World_eq)
  have r2: "replicate 2 False = [False, False]" by (simp add: numeral_2_eq_2)
  have r1: "False # replicate 1 False = [False, False]" by simp
  note t = getOverview_single_flight [where w = empty_World and p = 0]
  have a1: "getOverviews [False, False] empty_World = ([0, 0], empty_World)"
    using t [where n = 2, THEN conjunct1, rule_format, OF conjI [OF c q], THEN conjunct1]
    by (simp add: numeral_2_eq_2)
  have a2: "getOverviews [False, False] ?I =
     (replicate (Suc 1) (length (api_overview ?I)),
      ?I\<lparr>api_overview := api_overview ?I @ [Pending],
         cache_overview := Some (length (api_overview ?I))\<rparr>)"
    using getOverview_single_flight [where w = ?I and r = False and n = 1,
        THEN conjunct2, THEN conjunct1, rule_format, OF n]
    by simp
  have a3: "fst (getOverviews [False, False] ?I) = [0, 0]"
    by (simp only: a2 fst_conv snd_conv) (simp add: init_World_def)
  have a4: "api_overview (snd (getOverviews [False, False] ?I)) = [Pending]"
    by (simp only: a2 fst_conv snd_conv) (simp add: init_World_def)
  have a5: "length (api_overview (snd (getOverviews [False, True, False] empty_World))) = 2"
    using t [where flags = "[False, True, False]",
        THEN conjunct2, THEN conjunct2, THEN conjunct1, rule_format, OF c] l
    by simp
  show ?thesis by (intro conjI c q a1 n a3 a4 a5)
qed

text \<open>
  C1 as stated fails: the constructor's fetch is outstanding, a caller with
  \<open>refresh = false\<close> awaits it, and a caller with \<open>refresh = true\<close> gets another promise,
  from a second remote fetch.
\<close>

theorem single_flight_counterexample:
  "fst (getOverviews [False, True] empty_World) = [0, 1] \<and>
   api_overview empty_World = [Pending] \<and>
   api_overview (snd (getOverviews [False, True] empty_World)) = [Pending, Pending]"
  by (simp add: empty_World_eq getOverview_def fetch_overview_def)

text \<open>
  C2, as the code has it. After a successful fetch, a refresh puts the promise of a new
  remote fetch in the slot. When that fetch fails, the slot holds the failure: the
  failure is what the callers awaiting it receive, and what every later call with
  \<open>refresh = false\<close> receives; those calls issue no remote fetch, and the next call with
  \<open>refresh = true\<close> issues one. The promise fulfilled before is no longer in the slot;
  the arrays and the players are as they were.
\<close>

theorem overview_failed_refresh:
  fixes w :: "'h World" and e :: error
  assumes "cache_overview w = Some p" and "promise_at (api_overview w) p = Fulfilled ov"
  defines "q \<equiv> length (api_overview w)"
  defines "w' \<equiv> overview_rejected q e (snd (getOverview True w))"
  shows "fst (getOverview True w) = q \<and>
         api_overview w' = api_overview w @ [Rejected e] \<and>
         cache_overview w' = Some q \<and> q \<noteq> p \<and>
         promise_at (api_overview w') p = Fulfilled ov \<and>
         overview_result q w' = (Some (Inl e), w') \<and>
         getOverviews (replicate n False) w' = (replicate n q, w') \<and>
         arrays w' = arrays w \<and> players w' = players w \<and>
         getOverview True w' =
           (Suc q, w'\<lparr>api_overview := api_overview w' @ [Pending], cache_overview := Some (Suc q)\<rparr>)"
proof -
  from assms(2) have p: "p < length (api_overview w)"
    by (simp add: promise_at_settled)
  have w': "w' = w\<lparr>api_overview := api_overview w @ [Rejected e], cache_overview := Some q\<rparr>"
    by (simp add: w'_def q_def getOverview_refresh overview_rejected_def settle_def
        promise_at_append_new)
  have c: "cache_overview w' = Some q" by (simp add: w')
  have a: "api_overview w' = api_overview w @ [Rejected e]" by (simp add: w')
  have 1: "fst (getOverview True w) = q" by (simp add: getOverview_refresh q_def)
  have 2: "q \<noteq> p" using p by (simp add: q_def)
  have 3: "promise_at (api_overview w') p = Fulfilled ov"
    using p assms(2) by (simp add: a promise_at_append_old)
  have 4: "overview_result q w' = (Some (Inl e), w')"
    by (simp add: overview_result_def a q_def promise_at_append_new)
  have 5: "getOverviews (replicate n False) w' = (replicate n q, w')"
    using c by (rule getOverviews_cached)
  have 6: "arrays w' = arrays w" "players w' = players w" by (simp_all add: w')
  have 7: "getOverview True w' =
           (Suc q, w'\<lparr>api_overview := api_overview w' @ [Pending], cache_overview := Some (Suc q)\<rparr>)"
    by (simp add: getOverview_refresh a q_def)
  show ?thesis by (intro conjI 1 a c 2 3 4 5 6 7)
qed

theorem overview_failed_refresh_witness:
  "cache_overview loaded_World = Some 0 \<and>
   promise_at (api_overview loaded_World) 0 = Fulfilled 0 \<and>
   overview_result 1 failed_refresh_World =
     (Some (Inl (Error ''offline'')), failed_refresh_World) \<and>
   getOverviews [False, False] failed_refresh_World = ([1, 1], failed_refresh_World) \<and>
   api_overview failed_refresh_World = [Fulfilled 0, Rejected (Error ''offline'')]"
proof -
  have c: "cache_overview loaded_World = Some 0" by (simp add: loaded_World_eq)
  have f: "promise_at (api_overview loaded_World) 0 = Fulfilled 0"
    by (simp add: loaded_World_eq promise_at_def)
  have l: "length (api_overview loaded_World) = 1" by (simp add: loaded_World_eq)
  note t = overview_failed_refresh [OF c f, where e = "Error ''offline''", unfolded l,
      folded failed_refresh_World_def]
  have 1: "overview_result 1 failed_refresh_World =
     (Some (Inl (Error ''offline'')), failed_refresh_World)"
    using t by blast
  have 2: "getOverviews [False, False] failed_refresh_World = ([1, 1], failed_refresh_World)"
    using t [where n = 2] by (simp add: numeral_2_eq_2)
  have 3: "api_overview failed_refresh_World = [Fulfilled 0, Rejected (Error ''offline'')]"
    using t by (simp add: loaded_World_eq)
  show ?thesis by (intro conjI c f 1 2 3)
qed

text \<open>
  C2 as stated fails: after a successful fetch and a failed refresh, a call with
  \<open>refresh = false\<close> receives the error, not the overview fetched before.
\<close>

theorem stale_overview_counterexample:
  "cache_overview loaded_World = Some 0 \<and>
   fst (overview_result 0 loaded_World) = Some (Inr 1) \<and>
   overview_value (snd (overview_result 0 loaded_World)) 1 = (''STEVE'', [''ALICE'']) \<and>
   failed_refresh_World =
     overview_rejected 1 (Error ''offline'') (snd (getOverview True loaded_World)) \<and>
   getOverview False failed_refresh_World = (1, failed_refresh_World) \<and>
   overview_result 1 failed_refresh_World =
     (Some (Inl (Error ''offline'')), failed_refresh_World)"
proof (intro conjI)
  show "failed_refresh_World =
     overview_rejected 1 (Error ''offline'') (snd (getOverview True loaded_World))"
    by (simp only: failed_refresh_World_def)
qed (simp_all add: failed_refresh_World_eq loaded_World_eq getOverview_def overview_result_def
      promise_at_def overview_value_def)

text \<open>
  When the overview reports the owner name in upper case, the mark reaches the record
  \<open>getPlayer\<close> reads, for every spelling of the name.
\<close>

lemma overview_loaded_owner:
  "\<exists>i. players (overview_loaded ov w) (overview_owner (overviews w ! ov)) = Some i \<and>
       owner i = Some True"
  by (simp add: overview_loaded_def Let_def split: option.splits)

lemma owner_marked_canonical:
  assumes "promise_at (api_overview w) p = Pending" and "p < length (api_overview w)"
    and "toLocaleUpperCase (overview_owner (overviews w ! ov)) = overview_owner (overviews w ! ov)"
    and "eq_up_to_case n (overview_owner (overviews w ! ov))"
  shows "isOwner (getPlayer n (overview_fulfilled p ov w))"
proof -
  let ?w = "w\<lparr>api_overview := (api_overview w)[p := Fulfilled ov]\<rparr>"
  from assms(4) have "toLocaleUpperCase n = toLocaleUpperCase (overview_owner (overviews w ! ov))"
    by (rule eq_up_to_case_upper)
  with assms(3) have n: "toLocaleUpperCase n = overview_owner (overviews ?w ! ov)" by simp
  from overview_loaded_owner [of ov ?w] obtain i
    where "players (overview_loaded ov ?w) (overview_owner (overviews ?w ! ov)) = Some i"
      and "owner i = Some True" by blast
  with n have "isOwner (getPlayer n (overview_loaded ov ?w))"
    by (simp add: isOwner_def getPlayer_def)
  with assms(1,2) show ?thesis by (simp add: overview_fulfilled_def)
qed

text \<open>
  C3 on the code: the reaction of lines 110-111 marks the record under the owner name
  as the overview reports it, and \<open>getPlayer\<close> looks a name up in upper case. After an
  overview reporting the owner Steve, the record marked has the key Steve, there is no
  record of key STEVE, and \<open>getPlayer\<close> of \<open>steve\<close> builds the player it built before
  the overview arrived, from a record without an owner flag: it is not the owner.
\<close>

theorem owner_marked_under_raw_name:
  "players steve_World ''Steve'' = Some \<lparr>ip = [], ips = [], joins = 0, owner = Some True\<rparr> \<and>
   players steve_World ''STEVE'' = None \<and>
   toLocaleUpperCase ''steve'' = ''STEVE'' \<and>
   getPlayer ''steve'' steve_World = getPlayer ''steve'' empty_World \<and>
   owner (player_info (getPlayer ''steve'' steve_World)) = None \<and>
   isOwner (getPlayer ''steve'' steve_World) = False \<and>
   isOwner (getPlayer ''Steve'' steve_World) = False"
  by (simp add: steve_World_eq empty_World_eq getPlayer_def isOwner_def toLocaleUpperCase_def
      upper_char_def upper_table_def)

subsection \<open>Copies handed to callers\<close>

lemma online_eq:
  "online w = (length (arrays w), w\<lparr>arrays := arrays w @ [arrays w ! online_arr w]\<rparr>)"
  by (simp add: online_def)

lemma overview_loaded_online:
  "online_arr w < length (arrays w) \<Longrightarrow>
   arrays (overview_loaded ov w) ! online_arr w =
     merge_online (arrays w ! online_arr w) (arrays w ! overview_online (overviews w ! ov))"
  by (simp add: overview_loaded_def Let_def)

lemma mutated_World_eq:
  "mutated_World =
     \<lparr>arrays = [[''ALICE''], [], [], [], [], [''ALICE'', ''MALLORY'']],
      overviews = [\<lparr>overview_owner = ''STEVE'', overview_online = 5\<rparr>,
                   \<lparr>overview_owner = ''STEVE'', overview_online = 5\<rparr>],
      listobjs = [\<lparr>adminlist = 1, modlist = 2, whitelist = 3, blacklist = 4\<rparr>],
      api_overview = [Fulfilled 0], api_lists = [Pending], api_setLists = [],
      cache_overview = Some 0, cache_lists = Some 0,
      online_arr = 0, lists_obj = 0,
      players = [''STEVE'' \<mapsto> \<lparr>ip = [], ips = [], joins = 0, owner = Some True\<rparr>],
      commands = Map.empty,
      events = [], calls = []\<rparr>"
  by (simp add: mutated_World_def loaded_World_eq overview_result_def promise_at_def
      array_write_def)

lemma lists_result_fulfilled:
  "promise_at (api_lists w) p = Fulfilled l \<Longrightarrow>
   lists_result p w =
     (Some (Inr (length (listobjs w))),
      w\<lparr>arrays := arrays w @
           [arrays w ! adminlist (listobjs w ! l), arrays w ! modlist (listobjs w ! l),
            arrays w ! whitelist (listobjs w ! l), arrays w ! blacklist (listobjs w ! l)],
        listobjs := listobjs w @
           [\<lparr>adminlist = length (arrays w), modlist = length (arrays w) + 1,
             whitelist = length (arrays w) + 2, blacklist = length (arrays w) + 3\<rparr>]\<rparr>)"
  by (simp add: lists_result_def Let_def)

lemma lists_value_copy:
  assumes "promise_at (api_lists w) p = Fulfilled l"
  shows "lists_value (snd (lists_result p w)) (length (listobjs w)) = lists_value w l"
  by (simp add: lists_result_fulfilled [OF assms] lists_value_def nth_append)

lemma lists_value_cached:
  assumes "promise_at (api_lists w) p = Fulfilled l" and "lists_valid w l"
  shows "lists_value (snd (lists_result p w)) l = lists_value w l"
  using assms(2)
  by (simp add: lists_result_fulfilled [OF assms(1)] lists_value_def lists_valid_def nth_append)

lemma lists_value_write:
  assumes "promise_at (api_lists w) p = Fulfilled l" and "lists_valid w l"
    and "length (arrays w) \<le> a"
  shows "lists_value (array_write a xs (snd (lists_result p w))) l = lists_value w l"
  using assms(2,3)
  by (simp add: lists_result_fulfilled [OF assms(1)] lists_value_def lists_valid_def
      array_write_def nth_append)

lemma lists_copy_independent:
  assumes "promise_at (api_lists w) p = Fulfilled l" and "lists_valid w l"
    and "length (arrays w) \<le> a"
  shows "lists_value
           (snd (lists_result p (array_write a xs (snd (lists_result p w)))))
           (length (listobjs (snd (lists_result p w)))) = lists_value w l"
proof -
  let ?w2 = "array_write a xs (snd (lists_result p w))"
  have p: "promise_at (api_lists ?w2) p = Fulfilled l"
    using assms(1) by (simp add: lists_result_fulfilled [OF assms(1)] array_write_def)
  have n: "length (listobjs ?w2) = length (listobjs (snd (lists_result p w)))"
    by (simp add: array_write_def)
  have "lists_value (snd (lists_result p ?w2)) (length (listobjs ?w2)) = lists_value ?w2 l"
    using p by (rule lists_value_copy)
  also have "\<dots> = lists_value w l"
    using assms by (rule lists_value_write)
  finally show ?thesis by (simp only: n)
qed

text \<open>
  C10. Reading \<open>online\<close> returns a new array (its address is not one of the arrays that
  exist), with the contents of the internal array and no other change of the state.
  Whatever is then written to the returned array, the internal array keeps its
  contents, a later read of \<open>online\<close> returns those contents, and the reconciliation
  of an overview gives the internal array the contents it would have had.
\<close>

theorem online_fresh_copy:
  fixes w :: "'h World" and xs :: "string list"
  assumes "online_arr w < length (arrays w)"
  defines "a \<equiv> fst (online w)"
  defines "w1 \<equiv> snd (online w)"
  defines "w2 \<equiv> array_write (fst (online w)) xs (snd (online w))"
  shows "a = length (arrays w) \<and> a \<noteq> online_arr w \<and>
         w1 = w\<lparr>arrays := arrays w @ [arrays w ! online_arr w]\<rparr> \<and>
         arrays w1 ! a = arrays w ! online_arr w \<and>
         online_arr w2 = online_arr w \<and>
         arrays w2 ! online_arr w2 = arrays w ! online_arr w \<and>
         arrays (snd (online w2)) ! fst (online w2) = arrays w ! online_arr w \<and>
         (overview_online (overviews w ! ov) < length (arrays w) \<longrightarrow>
            overviews w2 = overviews w \<and>
            arrays (overview_loaded ov w2) ! online_arr w2 =
              arrays (overview_loaded ov w) ! online_arr w)"
proof -
  have a: "a = length (arrays w)" by (simp add: a_def online_eq)
  have w1: "w1 = w\<lparr>arrays := arrays w @ [arrays w ! online_arr w]\<rparr>"
    by (simp add: w1_def online_eq)
  have w2: "w2 = w\<lparr>arrays := arrays w @ [xs]\<rparr>"
    by (simp add: w2_def online_eq array_write_def)
  have 1: "a \<noteq> online_arr w" using assms(1) a by simp
  have 2: "arrays w1 ! a = arrays w ! online_arr w" by (simp add: w1 a)
  have 3: "online_arr w2 = online_arr w" by (simp add: w2)
  have 4: "arrays w2 ! online_arr w2 = arrays w ! online_arr w"
    using assms(1) by (simp add: w2 nth_append)
  have 5: "arrays (snd (online w2)) ! fst (online w2) = arrays w ! online_arr w"
    using assms(1) by (simp add: online_eq w2 nth_append)
  have 6: "overviews w2 = overviews w \<and>
           arrays (overview_loaded ov w2) ! online_arr w2 =
             arrays (overview_loaded ov w) ! online_arr w"
    if "overview_online (overviews w ! ov) < length (arrays w)"
  proof -
    have o: "overviews w2 = overviews w" by (simp add: w2)
    have l: "online_arr w2 < length (arrays w2)" using assms(1) by (simp add: w2)
    have "arrays (overview_loaded ov w2) ! online_arr w2 =
        merge_online (arrays w2 ! online_arr w2) (arrays w2 ! overview_online (overviews w2 ! ov))"
      using l by (rule overview_loaded_online)
    also have "\<dots> = merge_online (arrays w ! online_arr w)
        (arrays w ! overview_online (overviews w ! ov))"
      using that assms(1) by (simp add: w2 nth_append)
    also have "\<dots> = arrays (overview_loaded ov w) ! online_arr w"
      using assms(1) by (simp add: overview_loaded_online)
    finally show ?thesis using o by simp
  qed
  show ?thesis using a 1 w1 2 3 4 5 6 by blast
qed

theorem online_fresh_copy_witness:
  "online_arr loaded_World < length (arrays loaded_World) \<and>
   fst (online loaded_World) = 6 \<and>
   arrays (snd (online loaded_World)) ! 6 = [''ALICE''] \<and>
   arrays (array_write (fst (online loaded_World)) [''MALLORY''] (snd (online loaded_World))) !
     online_arr loaded_World = [''ALICE''] \<and>
   overview_online (overviews loaded_World ! 0) < length (arrays loaded_World) \<and>
   arrays (overview_loaded 0
     (array_write (fst (online loaded_World)) [''MALLORY''] (snd (online loaded_World)))) !
     online_arr loaded_World = [''ALICE'']"
proof -
  have h: "online_arr loaded_World < length (arrays loaded_World)"
    by (simp add: loaded_World_eq)
  have o: "overview_online (overviews loaded_World ! 0) < length (arrays loaded_World)"
    by (simp add: loaded_World_eq)
  have v: "arrays loaded_World ! online_arr loaded_World = [''ALICE'']"
    by (simp add: loaded_World_eq)
  have l: "length (arrays loaded_World) = 6"
    by (simp add: loaded_World_eq)
  have m: "arrays (overview_loaded 0 loaded_World) ! online_arr loaded_World = [''ALICE'']"
    by (simp add: loaded_World_eq overview_loaded_def merge_online_def Let_def)
  note t = online_fresh_copy [OF h, where xs = "[''MALLORY'']" and ov = 0]
  let ?w2 = "array_write (fst (online loaded_World)) [''MALLORY''] (snd (online loaded_World))"
  from t have t1: "fst (online loaded_World) = length (arrays loaded_World)" by blast
  from t have t2: "arrays (snd (online loaded_World)) ! fst (online loaded_World) =
      arrays loaded_World ! online_arr loaded_World" by blast
  from t have t3: "online_arr ?w2 = online_arr loaded_World" by blast
  from t have t4: "arrays ?w2 ! online_arr ?w2 = arrays loaded_World ! online_arr loaded_World"
    by blast
  from t o have t5: "arrays (overview_loaded 0 ?w2) ! online_arr ?w2 =
      arrays (overview_loaded 0 loaded_World) ! online_arr loaded_World" by blast
  have 1: "fst (online loaded_World) = 6" using t1 l by simp
  have 2: "arrays (snd (online loaded_World)) ! 6 = [''ALICE'']" using t2 1 v by simp
  have 3: "arrays ?w2 ! online_arr loaded_World = [''ALICE'']" using t4 t3 v by simp
  have 4: "arrays (overview_loaded 0 ?w2) ! online_arr loaded_World = [''ALICE'']"
    using t5 t3 m by simp
  show ?thesis by (intro conjI h 1 2 3 o 4)
qed

text \<open>
  C8 on the code: \<open>getLists\<close> copies the four arrays (\<open>lists_copy_independent\<close>), but
  \<open>getOverview\<close> copies the overview object only (line 116), so the array \<open>online\<close> of
  the copy is the array of the cached object. A caller that pushes MALLORY onto the
  array \<open>online\<close> of the overview it received changes what the next call returns,
  with no refresh and no remote fetch between the two.
\<close>

theorem overview_copy_shares_online:
  "fst (overview_result 0 loaded_World) = Some (Inr 1) \<and>
   overview_value (snd (overview_result 0 loaded_World)) 1 = (''STEVE'', [''ALICE'']) \<and>
   overview_online (overviews (snd (overview_result 0 loaded_World)) ! 1) = 5 \<and>
   mutated_World =
     array_write 5 [''ALICE'', ''MALLORY''] (snd (overview_result 0 loaded_World)) \<and>
   getOverview False mutated_World = (0, mutated_World) \<and>
   api_overview mutated_World = api_overview loaded_World \<and>
   fst (overview_result 0 mutated_World) = Some (Inr 2) \<and>
   overview_value (snd (overview_result 0 mutated_World)) 2 = (''STEVE'', [''ALICE'', ''MALLORY''])"
proof (intro conjI)
  show "mutated_World =
     array_write 5 [''ALICE'', ''MALLORY''] (snd (overview_result 0 loaded_World))"
    by (simp only: mutated_World_def)
qed (simp_all add: mutated_World_eq loaded_World_eq getOverview_def overview_result_def
      promise_at_def overview_value_def)

subsection \<open>Setting the lists\<close>

lemma getLists_cached: "cache_lists w = Some p \<Longrightarrow> getLists False w = (p, w)"
  by (simp add: getLists_def)

lemma getLists_refresh:
  "getLists True w =
     (length (api_lists w),
      w\<lparr>api_lists := api_lists w @ [Pending], cache_lists := Some (length (api_lists w))\<rparr>)"
  by (simp add: getLists_def fetch_lists_def split: option.splits)

lemma setLists_submit:
  assumes "promise_at (api_lists w) p = Fulfilled l"
  shows "setLists_resume (AwaitCurrent update p) w =
     (AwaitSubmit (length (api_setLists w)),
      w\<lparr>arrays := arrays w @
           [arrays w ! adminlist (listobjs w ! l), arrays w ! modlist (listobjs w ! l),
            arrays w ! whitelist (listobjs w ! l), arrays w ! blacklist (listobjs w ! l)],
        listobjs := listobjs w @
           [\<lparr>adminlist = length (arrays w), modlist = length (arrays w) + 1,
             whitelist = length (arrays w) + 2, blacklist = length (arrays w) + 3\<rparr>,
            merge_lists
              \<lparr>adminlist = length (arrays w), modlist = length (arrays w) + 1,
               whitelist = length (arrays w) + 2, blacklist = length (arrays w) + 3\<rparr> update],
        api_setLists := api_setLists w @ [(length (listobjs w) + 1, Pending)]\<rparr>)"
  by (simp add: setLists_resume_def lists_result_fulfilled [OF assms])

lemma setLists_submit_value:
  assumes "promise_at (api_lists w) p = Fulfilled l" and "partial_valid w update"
  shows "lists_value (snd (setLists_resume (AwaitCurrent update p) w)) (length (listobjs w) + 1)
           = merged_lists_value w l update"
  using assms(2)
  by (simp add: setLists_submit [OF assms(1)] lists_value_def merged_lists_value_def
      merge_lists_def partial_valid_def nth_append split: option.splits)

lemma setLists_submit_cached:
  assumes "promise_at (api_lists w) p = Fulfilled l" and "lists_valid w l"
  shows "lists_value (snd (setLists_resume (AwaitCurrent update p) w)) l = lists_value w l"
  using assms(2)
  by (simp add: setLists_submit [OF assms(1)] lists_value_def lists_valid_def nth_append)

lemma submit_settled_last:
  "submit_settled (length xs) v (w\<lparr>api_setLists := xs @ [(m, Pending)]\<rparr>) =
     w\<lparr>api_setLists := xs @ [(m, v)]\<rparr>"
  by (simp add: submit_settled_def promise_at_def nth_append)


lemma listed_World_eq:
  "listed_World =
     \<lparr>arrays = [[], [], [], [], [], [''ADMIN1''], [''MOD1''], [''WHITE1''], [''BLACK1''],
                [''ADMIN2'']],
      overviews = [],
      listobjs = [\<lparr>adminlist = 1, modlist = 2, whitelist = 3, blacklist = 4\<rparr>,
                  \<lparr>adminlist = 5, modlist = 6, whitelist = 7, blacklist = 8\<rparr>],
      api_overview = [Pending], api_lists = [Fulfilled 1], api_setLists = [],
      cache_overview = Some 0, cache_lists = Some 0,
      online_arr = 0, lists_obj = 1,
      players = Map.empty, commands = Map.empty,
      events = [], calls = []\<rparr>"
  by (simp add: listed_World_def empty_World_eq make_lists_def make_array_def
      lists_fulfilled_def promise_at_def)

text \<open>
  C5. With fetched lists in the cache, \<open>setLists\<close> issues no fetch for the current
  lists; it submits one object whose lists are the update over the cached lists (a list
  the update does not provide has the cached contents), and the cache, \<open>_lists\<close> and
  the cached contents are as before. If the submission is rejected, \<open>setLists\<close> throws
  that error and the cache, \<open>_lists\<close> and the cached contents are still as before; no
  fetch is issued. If it is fulfilled, \<open>setLists\<close> issues a new lists fetch, whose promise
  replaces the cached one; the submitted object still holds the merged lists, and once
  the fetch is answered with an object, \<open>setLists\<close> returns and a following \<open>getLists\<close>
  issues no fetch and returns a copy with the contents of that object.
\<close>

theorem setLists_merge:
  fixes w :: "'h World" and update :: PartialLists and e :: error and l' :: addr
  assumes "cache_lists w = Some p" and "promise_at (api_lists w) p = Fulfilled l"
    and "lists_valid w l" and "partial_valid w update"
  defines "s \<equiv> length (api_setLists w)"
  defines "m \<equiv> length (listobjs w) + 1"
  defines "q \<equiv> length (api_lists w)"
  defines "w1 \<equiv> snd (setLists_resume (AwaitCurrent update p) w)"
  defines "wr \<equiv> submit_settled (length (api_setLists w)) (Rejected e)
                   (snd (setLists_resume (AwaitCurrent update p) w))"
  defines "ws \<equiv> snd (setLists_resume (AwaitSubmit (length (api_setLists w)))
                   (submit_settled (length (api_setLists w)) (Fulfilled ())
                      (snd (setLists_resume (AwaitCurrent update p) w))))"
  defines "w3 \<equiv> lists_fulfilled (length (api_lists w)) l'
                   (snd (setLists_resume (AwaitSubmit (length (api_setLists w)))
                      (submit_settled (length (api_setLists w)) (Fulfilled ())
                         (snd (setLists_resume (AwaitCurrent update p) w)))))"
  shows "setLists update w = (AwaitCurrent update p, w) \<and>
         fst (setLists_resume (AwaitCurrent update p) w) = AwaitSubmit s \<and>
         api_setLists w1 = api_setLists w @ [(m, Pending)] \<and>
         lists_value w1 m = merged_lists_value w l update \<and>
         cache_lists w1 = Some p \<and> api_lists w1 = api_lists w \<and>
         lists_obj w1 = lists_obj w \<and> lists_value w1 l = lists_value w l \<and>
         setLists_resume (AwaitSubmit s) wr = (Thrown e, wr) \<and>
         cache_lists wr = Some p \<and> api_lists wr = api_lists w \<and>
         lists_obj wr = lists_obj w \<and> lists_value wr l = lists_value w l \<and>
         fst (setLists_resume (AwaitSubmit s)
                (submit_settled s (Fulfilled ()) w1)) = AwaitRefresh q \<and>
         api_lists ws = api_lists w @ [Pending] \<and> cache_lists ws = Some q \<and>
         lists_value ws m = merged_lists_value w l update \<and>
         fst (setLists_resume (AwaitRefresh q) w3) = Returned \<and>
         getLists False w3 = (q, w3) \<and>
         fst (lists_result q w3) = Some (Inr (length (listobjs w3))) \<and>
         lists_value (snd (lists_result q w3)) (length (listobjs w3)) = lists_value ws l'"
proof -
  note sub = setLists_submit [OF assms(2), of update]
  have 1: "setLists update w = (AwaitCurrent update p, w)"
    using assms(1) by (simp add: setLists_def getLists_cached)
  have 2: "fst (setLists_resume (AwaitCurrent update p) w) = AwaitSubmit s"
    by (simp add: sub s_def)
  have 3: "api_setLists w1 = api_setLists w @ [(m, Pending)]"
    by (simp add: w1_def sub m_def)
  have 4: "lists_value w1 m = merged_lists_value w l update"
    unfolding w1_def m_def using assms(2,4) by (rule setLists_submit_value)
  have 5: "cache_lists w1 = Some p" "api_lists w1 = api_lists w" "lists_obj w1 = lists_obj w"
    using assms(1) by (simp_all add: w1_def sub)
  have 6: "lists_value w1 l = lists_value w l"
    unfolding w1_def using assms(2,3) by (rule setLists_submit_cached)
  have wr: "wr = w1\<lparr>api_setLists := api_setLists w @ [(m, Rejected e)]\<rparr>"
    by (simp add: wr_def w1_def sub submit_settled_def promise_at_def nth_append m_def)
  have 7: "setLists_resume (AwaitSubmit s) wr = (Thrown e, wr)"
    by (simp add: setLists_resume_def wr promise_at_def nth_append s_def)
  have 8: "cache_lists wr = Some p" "api_lists wr = api_lists w" "lists_obj wr = lists_obj w"
    using 5 by (simp_all add: wr)
  have 9: "lists_value wr l = lists_value w l"
    using 6 by (simp add: wr lists_value_def)
  have w1s: "submit_settled s (Fulfilled ()) w1 =
      w1\<lparr>api_setLists := api_setLists w @ [(m, Fulfilled ())]\<rparr>"
    unfolding w1_def m_def s_def
    by (simp add: sub submit_settled_def promise_at_def nth_append)
  have r: "setLists_resume (AwaitSubmit s) (submit_settled s (Fulfilled ()) w1) =
      (AwaitRefresh q,
       w1\<lparr>api_setLists := api_setLists w @ [(m, Fulfilled ())],
          api_lists := api_lists w @ [Pending], cache_lists := Some q\<rparr>)"
    unfolding w1s using 5(2)
    by (simp add: setLists_resume_def promise_at_def nth_append s_def getLists_refresh q_def)
  have ws: "ws = w1\<lparr>api_setLists := api_setLists w @ [(m, Fulfilled ())],
          api_lists := api_lists w @ [Pending], cache_lists := Some q\<rparr>"
    unfolding ws_def using r by (simp add: w1_def s_def)
  have 10: "fst (setLists_resume (AwaitSubmit s) (submit_settled s (Fulfilled ()) w1)) =
      AwaitRefresh q"
    by (simp add: r)
  have 11: "api_lists ws = api_lists w @ [Pending]" "cache_lists ws = Some q"
    by (simp_all add: ws)
  have 16: "lists_value ws m = merged_lists_value w l update"
    using 4 by (simp add: ws lists_value_def)
  have w3: "w3 = ws\<lparr>api_lists := api_lists w @ [Fulfilled l'], lists_obj := l'\<rparr>"
    unfolding w3_def ws_def [symmetric]
    by (simp add: lists_fulfilled_def 11 promise_at_def nth_append)
  have f: "promise_at (api_lists w3) q = Fulfilled l'"
    by (simp add: w3 promise_at_def nth_append q_def)
  have 12: "fst (setLists_resume (AwaitRefresh q) w3) = Returned"
    by (simp add: setLists_resume_def lists_result_fulfilled [OF f])
  have 13: "getLists False w3 = (q, w3)"
    by (rule getLists_cached) (simp add: w3 11)
  have 14: "fst (lists_result q w3) = Some (Inr (length (listobjs w3)))"
    by (simp add: lists_result_fulfilled [OF f])
  have "lists_value (snd (lists_result q w3)) (length (listobjs w3)) = lists_value w3 l'"
    using f by (rule lists_value_copy)
  also have "\<dots> = lists_value ws l'"
    by (simp add: w3 lists_value_def)
  finally have 15:
    "lists_value (snd (lists_result q w3)) (length (listobjs w3)) = lists_value ws l'" .
  show ?thesis by (intro conjI 1 2 3 4 5 6 7 8 9 10 11 16 12 13 14 15)
qed

theorem setLists_merge_witness:
  "cache_lists listed_World = Some 0 \<and>
   promise_at (api_lists listed_World) 0 = Fulfilled 1 \<and>
   lists_valid listed_World 1 \<and> partial_valid listed_World admin_update \<and>
   lists_value listed_World 1 = ([''ADMIN1''], [''MOD1''], [''WHITE1''], [''BLACK1'']) \<and>
   api_setLists (snd (setLists_resume (AwaitCurrent admin_update 0) listed_World)) =
     [(3, Pending)] \<and>
   lists_value (snd (setLists_resume (AwaitCurrent admin_update 0) listed_World)) 3 =
     ([''ADMIN2''], [''MOD1''], [''WHITE1''], [''BLACK1'']) \<and>
   fst (setLists_resume (AwaitSubmit 0)
     (submit_settled 0 (Rejected (Error ''denied''))
        (snd (setLists_resume (AwaitCurrent admin_update 0) listed_World)))) =
     Thrown (Error ''denied'') \<and>
   lists_value
     (submit_settled 0 (Rejected (Error ''denied''))
        (snd (setLists_resume (AwaitCurrent admin_update 0) listed_World))) 1 =
     ([''ADMIN1''], [''MOD1''], [''WHITE1''], [''BLACK1'']) \<and>
   lists_value
     (snd (lists_result 1
        (lists_fulfilled 1 3
           (snd (setLists_resume (AwaitSubmit 0)
              (submit_settled 0 (Fulfilled ())
                 (snd (setLists_resume (AwaitCurrent admin_update 0) listed_World))))))))
     4 = ([''ADMIN2''], [''MOD1''], [''WHITE1''], [''BLACK1''])"
proof -
  have c: "cache_lists listed_World = Some 0" by (simp add: listed_World_eq)
  have f: "promise_at (api_lists listed_World) 0 = Fulfilled 1"
    by (simp add: listed_World_eq promise_at_def)
  have v: "lists_valid listed_World 1" by (simp add: listed_World_eq lists_valid_def)
  have u: "partial_valid listed_World admin_update"
    by (simp add: listed_World_eq partial_valid_def admin_update_def)
  have o: "lists_value listed_World 1 = ([''ADMIN1''], [''MOD1''], [''WHITE1''], [''BLACK1''])"
    by (simp add: listed_World_eq lists_value_def)
  have g: "merged_lists_value listed_World 1 admin_update =
      ([''ADMIN2''], [''MOD1''], [''WHITE1''], [''BLACK1''])"
    by (simp add: merged_lists_value_def admin_update_def listed_World_eq lists_value_def)
  have n: "length (api_setLists listed_World) = 0" "length (listobjs listed_World) + 1 = 3"
    "length (api_lists listed_World) = 1"
    by (simp_all add: listed_World_eq)
  have n4: "api_setLists listed_World = []" by (simp add: listed_World_eq)
  note t = setLists_merge [OF c f v u, where e = "Error ''denied''" and l' = 3,
      unfolded n g o]
  let ?w1 = "snd (setLists_resume (AwaitCurrent admin_update 0) listed_World)"
  let ?w3 = "lists_fulfilled 1 3 (snd (setLists_resume (AwaitSubmit 0)
              (submit_settled 0 (Fulfilled ()) ?w1)))"
  from t have 1: "api_setLists ?w1 = api_setLists listed_World @ [(3, Pending)]" by blast
  from t have 2: "lists_value ?w1 3 = ([''ADMIN2''], [''MOD1''], [''WHITE1''], [''BLACK1''])"
    by blast
  from t have 3: "setLists_resume (AwaitSubmit 0)
      (submit_settled 0 (Rejected (Error ''denied'')) ?w1) =
      (Thrown (Error ''denied''), submit_settled 0 (Rejected (Error ''denied'')) ?w1)"
    by blast
  from t have 4: "lists_value (submit_settled 0 (Rejected (Error ''denied'')) ?w1) 1 =
      ([''ADMIN1''], [''MOD1''], [''WHITE1''], [''BLACK1''])"
    by blast
  from t have 5: "lists_value (snd (setLists_resume (AwaitSubmit 0)
      (submit_settled 0 (Fulfilled ()) ?w1))) 3 =
      ([''ADMIN2''], [''MOD1''], [''WHITE1''], [''BLACK1''])"
    by blast
  from t have 6: "lists_value (snd (lists_result 1 ?w3)) (length (listobjs ?w3)) =
      lists_value (snd (setLists_resume (AwaitSubmit 0)
        (submit_settled 0 (Fulfilled ()) ?w1))) 3"
    by blast
  from t have 7: "fst (lists_result 1 ?w3) = Some (Inr (length (listobjs ?w3)))" by blast
  have 8: "length (listobjs ?w3) = 4"
    by (simp add: listed_World_eq admin_update_def setLists_resume_def lists_result_def
        promise_at_def submit_settled_def getLists_def fetch_lists_def lists_fulfilled_def
        Let_def)
  have a1: "api_setLists ?w1 = [(3, Pending)]" using 1 by (simp add: n4)
  have a3: "fst (setLists_resume (AwaitSubmit 0)
      (submit_settled 0 (Rejected (Error ''denied'')) ?w1)) = Thrown (Error ''denied'')"
    by (simp add: 3)
  have a6: "lists_value (snd (lists_result 1 ?w3)) 4 =
      ([''ADMIN2''], [''MOD1''], [''WHITE1''], [''BLACK1''])"
    using 6 5 8 by simp
  show ?thesis by (intro conjI c f v u o a1 2 a3 4 a6)
qed

end
